theory Spec2Isabelle
  imports Complex_Main "HOL-Library.AList"
begin

section \<open>The Telegram adapter of Kitebot (src/telegram-client.ts)\<close>

text \<open>
  The adapter is a Node.js module with module-level state and four entry points that the
  runtime calls: the module's top level (start-up), the handler registered with
  \<^verbatim>\<open>bot.on(message('text'), ...)\<close>, \<^verbatim>\<open>checkOutgoingQueue\<close> (every second) and the
  typing-refresh callback (every four seconds). Node runs each callback to completion
  between two \<^verbatim>\<open>await\<close>s, so each entry point is a function from the adapter's state to
  its next state. What the environment decides (the clock, the random suffix, whether a
  file-system or platform call fails) is an explicit argument.

  JavaScript strings are modelled as \<^typ>\<open>string\<close>, one \<^typ>\<open>char\<close> per code unit
  below 256; integers (chat ids, message ids, millisecond timestamps) as \<^typ>\<open>int\<close>.
\<close>


subsection \<open>Values\<close>

text \<open>
  A JSON value as \<^verbatim>\<open>JSON.parse\<close> returns it. An object is the list of its members in
  the order of the text. The adapter never computes with a number it has parsed.
\<close>

datatype json =
    JNull
  | JBool bool
  | JNumber real
  | JString string
  | JArray "json list"
  | JObject "(string \<times> json) list"

text \<open>
  A file of a queue directory is modelled by what \<^verbatim>\<open>JSON.parse\<close> makes of its text:
  \<open>Unparseable\<close> when it throws a \<^verbatim>\<open>SyntaxError\<close>, and \<open>Parses v\<close> when it returns
  \<open>v\<close>. \<^verbatim>\<open>JSON.stringify(v, null, 2)\<close> writes a text that parses to \<open>v\<close>.
\<close>

datatype file_body = Unparseable | Parses json

datatype failure =
    FsWriteError
  | FsReadError
  | FsUnlinkError
  | FsReaddirError
  | JsonSyntaxError
  | TypeError
  | TelegramError

text \<open>
  Reading a property \<^verbatim>\<open>v.k\<close> of a parsed value. \<^verbatim>\<open>null.k\<close> throws a
  \<^verbatim>\<open>TypeError\<close>; a missing property is \<^verbatim>\<open>undefined\<close> (\<open>None\<close>). When the text
  repeats a key, \<^verbatim>\<open>JSON.parse\<close> keeps the last member. The equations are those of
  JavaScript for the four keys the adapter reads: \<^verbatim>\<open>messageId\<close>, \<^verbatim>\<open>message\<close>,
  \<^verbatim>\<open>sender\<close> and \<^verbatim>\<open>length\<close>.
\<close>

fun property :: "string \<Rightarrow> json \<Rightarrow> failure + json option" where
  "property k JNull = Inl TypeError"
| "property k (JObject members) = Inr (map_of (rev members) k)"
| "property k (JString s) =
     Inr (if k = ''length'' then Some (JNumber (real (length s))) else None)"
| "property k (JArray vs) =
     Inr (if k = ''length'' then Some (JNumber (real (length vs))) else None)"
| "property k (JBool b) = Inr None"
| "property k (JNumber x) = Inr None"

text \<open>A property of a value that may be \<^verbatim>\<open>undefined\<close>: \<^verbatim>\<open>undefined.k\<close> throws.\<close>

fun property_of :: "string \<Rightarrow> json option \<Rightarrow> failure + json option" where
  "property_of k None = Inl TypeError"
| "property_of k (Some v) = property k v"

subsection \<open>Decimal rendering of integers\<close>

text \<open>
  \<^verbatim>\<open>n.toString()\<close> and \<^verbatim>\<open>`${n}`\<close> for an integer \<open>n\<close> (JavaScript prints an
  integer of magnitude below \<open>10\<^sup>2\<^sup>1\<close> in plain decimal).
\<close>

definition digit_char :: "nat \<Rightarrow> char" where
  "digit_char d = ''0123456789'' ! d"

fun show_nat :: "nat \<Rightarrow> string" where
  "show_nat n =
     (if n < 10 then [digit_char n] else show_nat (n div 10) @ [digit_char (n mod 10)])"

declare show_nat.simps [simp del]

definition show_int :: "int \<Rightarrow> string" where
  "show_int i = (if i < 0 then CHR ''-'' # show_nat (nat (- i)) else show_nat (nat i))"

subsection \<open>The reset command (line 82)\<close>

text \<open>
  \<^verbatim>\<open>String.prototype.trim\<close> removes white space and line terminators from both ends;
  these are the ones among the code units below 256.
\<close>

definition is_white_space :: "char \<Rightarrow> bool" where
  "is_white_space c \<longleftrightarrow>
     c \<in> set [CHR 0x09, CHR 0x0A, CHR 0x0B, CHR 0x0C, CHR 0x0D, CHR 0x20, CHR 0xA0]"

definition trim :: "string \<Rightarrow> string" where
  "trim s = rev (dropWhile is_white_space (rev (dropWhile is_white_space s)))"

text \<open>
  An anchored match \<^verbatim>\<open>^c\<^sub>1c\<^sub>2...c\<^sub>n$\<close> of a sequence of character classes: the text
  has exactly one code unit per class.
\<close>

fun matches_classes :: "string list \<Rightarrow> string \<Rightarrow> bool" where
  "matches_classes [] [] = True"
| "matches_classes (cls # rest) (c # cs) = (c \<in> set cls \<and> matches_classes rest cs)"
| "matches_classes [] (c # cs) = False"
| "matches_classes (cls # rest) [] = False"

text \<open>
  \<^verbatim>\<open>/^[!/]reset$/i\<close>: with the flag \<^verbatim>\<open>i\<close> each letter stands for itself and its
  upper-case form (no code unit above 127 is matched by an ASCII letter).
\<close>

definition reset_pattern :: "string list" where
  "reset_pattern = [''!/'', ''rR'', ''eE'', ''sS'', ''eE'', ''tT'']"

definition matches_reset_pattern :: "string \<Rightarrow> bool" where
  "matches_reset_pattern t = matches_classes reset_pattern t"

text \<open>The test of line 82: \<^verbatim>\<open>text.trim().match(/^[!/]reset$/i)\<close>.\<close>

definition is_reset_command :: "string \<Rightarrow> bool" where
  "is_reset_command t = matches_reset_pattern (trim t)"

subsection \<open>The adapter's state\<close>

record PendingMessage =
  chatId :: int
  messageId :: int
  timestamp :: int

datatype level = INFO | WARN | ERROR

text \<open>
  One constructor per call of \<^verbatim>\<open>log\<close> in the source, with the values its message
  interpolates; the text and the ISO time stamp of a line are not modelled.
\<close>

datatype log_message =
    MessageFrom string string
  | ResetCommandReceived
  | QueuedMessage string
  | MessageHandlingError failure
  | SentResponseTo "json option" "json option"
  | NoPendingMessageFor "json option"
  | ErrorProcessingResponseFile string failure
  | OutgoingQueueError failure

text \<open>
  The calls the adapter makes on the Telegram API: \<^verbatim>\<open>ctx.reply(text)\<close> in a chat,
  \<^verbatim>\<open>sendChatAction(chat, 'typing')\<close>, and
  \<^verbatim>\<open>sendMessage(chat, text, {reply_parameters: {message_id}})\<close>.
\<close>

datatype platform_call =
    Reply int string
  | SendChatAction int
  | SendMessage int "json option" int

text \<open>
  \<open>pendingMessages\<close> is the \<^verbatim>\<open>Map\<close> of line 58, in insertion order; \<open>incoming\<close> and
  \<open>outgoing\<close> are the files of \<^verbatim>\<open>QUEUE_INCOMING\<close> and \<^verbatim>\<open>QUEUE_OUTGOING\<close> by name,
  in the order \<^verbatim>\<open>readdirSync\<close> lists them; \<open>reset_flag\<close> is the content of
  \<^verbatim>\<open>.kitebot/reset_flag\<close> when the file exists; \<open>log_file\<close> holds the lines logged;
  \<open>calls\<close> the platform calls issued, in order; \<open>unhandled_rejections\<close> the rejections of
  promises that nothing awaits or catches.
\<close>

record adapter =
  pendingMessages :: "(string \<times> PendingMessage) list"
  incoming :: "(string \<times> file_body) list"
  outgoing :: "(string \<times> file_body) list"
  reset_flag :: "string option"
  log_file :: "(level \<times> log_message) list"
  calls :: "platform_call list"
  unhandled_rejections :: "failure list"

text \<open>
  A callback either returns or throws; either way the state changes made so far stay.
\<close>

datatype outcome = Returned adapter | Threw failure adapter

fun state_of :: "outcome \<Rightarrow> adapter" where
  "state_of (Returned s) = s"
| "state_of (Threw e s) = s"

text \<open>A promise, once settled.\<close>

datatype promise = Fulfilled | Rejected failure

text \<open>
  \<^verbatim>\<open>log(level, message)\<close> (lines 61-67) appends one line; \<^verbatim>\<open>console.log\<close> and
  \<^verbatim>\<open>fs.appendFileSync\<close> are taken not to throw.
\<close>

definition log :: "level \<Rightarrow> log_message \<Rightarrow> adapter \<Rightarrow> adapter" where
  "log lvl msg s = s\<lparr>log_file := log_file s @ [(lvl, msg)]\<rparr>"

text \<open>A call on the platform is recorded when it is made, whether or not it succeeds.\<close>

definition issue :: "platform_call \<Rightarrow> adapter \<Rightarrow> adapter" where
  "issue c s = s\<lparr>calls := calls s @ [c]\<rparr>"

subsection \<open>The text-message handler (lines 73-133)\<close>

text \<open>
  The fields of \<^verbatim>\<open>ctx\<close> the handler reads: \<^verbatim>\<open>ctx.from.first_name\<close>,
  \<^verbatim>\<open>ctx.from.username\<close> (optional), \<^verbatim>\<open>ctx.chat.id\<close>, \<^verbatim>\<open>ctx.message.message_id\<close>
  and \<^verbatim>\<open>ctx.message.text\<close>.
\<close>

record ctx =
  first_name :: string
  username :: "string option"
  chat_id :: int
  message_id :: int
  msg_text :: string

text \<open>
  What the environment decides during one run of the handler: the four readings of
  \<^verbatim>\<open>Date.now()\<close> (lines 98, 106, 119 and 123), the value of
  \<^verbatim>\<open>Math.random().toString(36).substring(7)\<close>, and which calls fail.
\<close>

record handler_env =
  now_id :: int
  now_queued :: int
  now_pending :: int
  now_cleanup :: int
  random_suffix :: string
  write_flag_fails :: bool
  reply_fails :: bool
  chat_action_fails :: bool
  write_queue_fails :: bool

text \<open>Line 76: \<^verbatim>\<open>ctx.from.first_name || ctx.from.username || 'Unknown'\<close>.\<close>

definition sender_of :: "ctx \<Rightarrow> string" where
  "sender_of c =
     (if first_name c \<noteq> [] then first_name c
      else case username c of
             Some u \<Rightarrow> if u \<noteq> [] then u else ''Unknown''
           | None \<Rightarrow> ''Unknown'')"

text \<open>Line 98: \<^verbatim>\<open>`${Date.now()}_${Math.random().toString(36).substring(7)}`\<close>.\<close>

definition internalMessageId_of :: "handler_env \<Rightarrow> string" where
  "internalMessageId_of env = show_int (now_id env) @ ''_'' @ random_suffix env"

text \<open>Lines 101-108.\<close>

definition queueData :: "handler_env \<Rightarrow> ctx \<Rightarrow> json" where
  "queueData env c =
     JObject [(''channel'', JString ''telegram''),
              (''sender'', JString (sender_of c)),
              (''senderId'', JString (show_int (chat_id c))),
              (''message'', JString (msg_text c)),
              (''timestamp'', JNumber (real_of_int (now_queued env))),
              (''messageId'', JString (internalMessageId_of env))]"

text \<open>Line 110: the name of the file within \<^verbatim>\<open>QUEUE_INCOMING\<close>.\<close>

definition queueFile :: "handler_env \<Rightarrow> string" where
  "queueFile env = ''telegram_'' @ internalMessageId_of env @ ''.json''"

definition await :: "promise \<Rightarrow> adapter \<Rightarrow> outcome" where
  "await p s = (case p of Fulfilled \<Rightarrow> Returned s | Rejected e \<Rightarrow> Threw e s)"

definition settled :: "bool \<Rightarrow> promise" where
  "settled fails = (if fails then Rejected TelegramError else Fulfilled)"

text \<open>Lines 122-128: the loop deletes every entry older than ten minutes.\<close>

definition cleanup :: "int \<Rightarrow> (string \<times> PendingMessage) list \<Rightarrow> (string \<times> PendingMessage) list" where
  "cleanup tenMinutesAgo m = filter (\<lambda>(k, data). \<not> timestamp data < tenMinutesAgo) m"

text \<open>The body of the \<^verbatim>\<open>try\<close> block, lines 75-128.\<close>

definition handle_text_body :: "handler_env \<Rightarrow> ctx \<Rightarrow> adapter \<Rightarrow> outcome" where
  "handle_text_body env c s =
     (let sender = sender_of c;
          text = msg_text c;
          s1 = log INFO (MessageFrom sender (take 50 text)) s
      in if is_reset_command text then
           (let s2 = log INFO ResetCommandReceived s1
            in if write_flag_fails env then Threw FsWriteError s2
               else await (settled (reply_fails env))
                      (issue (Reply (chat_id c)
                          ''Conversation reset! Next message will start a fresh conversation.'')
                        (s2\<lparr>reset_flag := Some ''reset''\<rparr>)))
         else
           (case await (settled (chat_action_fails env)) (issue (SendChatAction (chat_id c)) s1) of
              Threw e s2 \<Rightarrow> Threw e s2
            | Returned s2 \<Rightarrow>
                if write_queue_fails env then Threw FsWriteError s2
                else
                  (let s3 = s2\<lparr>incoming :=
                              AList.update (queueFile env) (Parses (queueData env c)) (incoming s2)\<rparr>;
                       s4 = log INFO (QueuedMessage (internalMessageId_of env)) s3;
                       s5 = s4\<lparr>pendingMessages :=
                              AList.update (internalMessageId_of env)
                                \<lparr>chatId = chat_id c, messageId = message_id c,
                                 timestamp = now_pending env\<rparr>
                                (pendingMessages s4)\<rparr>;
                       tenMinutesAgo = now_cleanup env - (10 * 60 * 1000)
                   in Returned (s5\<lparr>pendingMessages := cleanup tenMinutesAgo (pendingMessages s5)\<rparr>))))"

text \<open>The handler: the \<^verbatim>\<open>try\<close> block with its \<^verbatim>\<open>catch\<close> (lines 130-132).\<close>

definition handle_text :: "handler_env \<Rightarrow> ctx \<Rightarrow> adapter \<Rightarrow> outcome" where
  "handle_text env c s =
     (case handle_text_body env c s of
        Returned s' \<Rightarrow> Returned s'
      | Threw e s' \<Rightarrow> Returned (log ERROR (MessageHandlingError e) s'))"

subsection \<open>The outgoing poll (lines 136-173)\<close>

text \<open>
  What the environment decides during one poll: whether \<^verbatim>\<open>readdirSync\<close> throws, the
  files for which \<^verbatim>\<open>readFileSync\<close> or \<^verbatim>\<open>unlinkSync\<close> throws, and the chats for which
  the promise of \<^verbatim>\<open>sendMessage\<close> is rejected. \<open>poll_time\<close> is the clock at the moment
  the timer fires; \<^verbatim>\<open>checkOutgoingQueue\<close> never reads the clock.
\<close>

record poll_env =
  poll_time :: int
  readdir_fails :: bool
  read_fails :: "string list"
  unlink_fails :: "string list"
  send_fails :: "int list"

definition startsWith :: "string \<Rightarrow> string \<Rightarrow> bool" where
  "startsWith p f \<longleftrightarrow> take (length p) f = p"

definition endsWith :: "string \<Rightarrow> string \<Rightarrow> bool" where
  "endsWith q f \<longleftrightarrow> length q \<le> length f \<and> drop (length f - length q) f = q"

text \<open>Lines 138-139.\<close>

definition response_files :: "poll_env \<Rightarrow> adapter \<Rightarrow> failure + string list" where
  "response_files env s =
     (if readdir_fails env then Inl FsReaddirError
      else Inr (filter (\<lambda>f. startsWith ''telegram_'' f \<and> endsWith ''.json'' f)
                  (map fst (outgoing s))))"

text \<open>Line 145: \<^verbatim>\<open>JSON.parse(fs.readFileSync(filePath, 'utf8'))\<close>.\<close>

definition read_json :: "poll_env \<Rightarrow> string \<Rightarrow> adapter \<Rightarrow> failure + json" where
  "read_json env file s =
     (if file \<in> set (read_fails env) then Inl FsReadError
      else case map_of (outgoing s) file of
             None \<Rightarrow> Inl FsReadError
           | Some Unparseable \<Rightarrow> Inl JsonSyntaxError
           | Some (Parses v) \<Rightarrow> Inr v)"

definition unlinkSync :: "poll_env \<Rightarrow> string \<Rightarrow> adapter \<Rightarrow> outcome" where
  "unlinkSync env file s =
     (if file \<in> set (unlink_fails env) \<or> map_of (outgoing s) file = None
      then Threw FsUnlinkError s
      else Returned (s\<lparr>outgoing := AList.delete file (outgoing s)\<rparr>))"

text \<open>
  \<^verbatim>\<open>pendingMessages.get(key)\<close> and \<^verbatim>\<open>pendingMessages.delete(key)\<close> for a key read
  from a response: the keys of the map are strings, so only a string finds an entry.
\<close>

definition pending_get :: "json option \<Rightarrow> (string \<times> PendingMessage) list \<Rightarrow> PendingMessage option" where
  "pending_get key m = (case key of Some (JString k) \<Rightarrow> map_of m k | _ \<Rightarrow> None)"

definition pending_delete :: "json option \<Rightarrow> (string \<times> PendingMessage) list \<Rightarrow> (string \<times> PendingMessage) list" where
  "pending_delete key m = (case key of Some (JString k) \<Rightarrow> AList.delete k m | _ \<Rightarrow> m)"

text \<open>
  Lines 152-154: \<^verbatim>\<open>bot.telegram.sendMessage\<close> returns a promise that the code neither
  awaits nor catches, so the call never throws into the poll and a rejection is unhandled.
\<close>

definition sendMessage :: "poll_env \<Rightarrow> int \<Rightarrow> json option \<Rightarrow> int \<Rightarrow> adapter \<Rightarrow> adapter" where
  "sendMessage env chat txt reply_to s =
     (let s1 = issue (SendMessage chat txt reply_to) s
      in case settled (chat \<in> set (send_fails env)) of
           Fulfilled \<Rightarrow> s1
         | Rejected e \<Rightarrow> s1\<lparr>unhandled_rejections := unhandled_rejections s1 @ [e]\<rparr>)"

text \<open>The body of the inner \<^verbatim>\<open>try\<close> block, lines 145-165.\<close>

definition process_response_body :: "poll_env \<Rightarrow> string \<Rightarrow> adapter \<Rightarrow> outcome" where
  "process_response_body env file s =
     (case read_json env file s of
        Inl e \<Rightarrow> Threw e s
      | Inr responseData \<Rightarrow>
      (case property ''messageId'' responseData of
        Inl e \<Rightarrow> Threw e s
      | Inr internalMessageId \<Rightarrow>
      (case property ''message'' responseData of
        Inl e \<Rightarrow> Threw e s
      | Inr responseText \<Rightarrow>
      (case property ''sender'' responseData of
        Inl e \<Rightarrow> Threw e s
      | Inr sender \<Rightarrow>
      (case pending_get internalMessageId (pendingMessages s) of
        Some pending \<Rightarrow>
          (let s1 = sendMessage env (chatId pending) responseText (messageId pending) s
           in case property_of ''length'' responseText of
                Inl e \<Rightarrow> Threw e s1
              | Inr n \<Rightarrow>
                  (let s2 = log INFO (SentResponseTo sender n) s1;
                       s3 = s2\<lparr>pendingMessages :=
                              pending_delete internalMessageId (pendingMessages s2)\<rparr>
                   in unlinkSync env file s3))
      | None \<Rightarrow>
          unlinkSync env file (log WARN (NoPendingMessageFor internalMessageId) s))))))"

text \<open>One iteration of the loop: the inner \<^verbatim>\<open>try\<close> with its \<^verbatim>\<open>catch\<close> (lines 166-168).\<close>

definition process_response :: "poll_env \<Rightarrow> string \<Rightarrow> adapter \<Rightarrow> outcome" where
  "process_response env file s =
     (case process_response_body env file s of
        Returned s' \<Rightarrow> Returned s'
      | Threw e s' \<Rightarrow> Returned (log ERROR (ErrorProcessingResponseFile file e) s'))"

text \<open>The loop of line 141: an iteration that throws ends the loop.\<close>

fun for_files :: "poll_env \<Rightarrow> string list \<Rightarrow> adapter \<Rightarrow> outcome" where
  "for_files env [] s = Returned s"
| "for_files env (file # files) s =
     (case process_response env file s of
        Returned s' \<Rightarrow> for_files env files s'
      | Threw e s' \<Rightarrow> Threw e s')"

definition checkOutgoingQueue :: "poll_env \<Rightarrow> adapter \<Rightarrow> outcome" where
  "checkOutgoingQueue env s =
     (case (case response_files env s of
              Inl e \<Rightarrow> Threw e s
            | Inr files \<Rightarrow> for_files env files s) of
        Returned s' \<Rightarrow> Returned s'
      | Threw e s' \<Rightarrow> Returned (log ERROR (OutgoingQueueError e) s'))"

subsection \<open>The typing refresh (lines 179-185)\<close>

text \<open>
  For every pending entry the callback sends a typing indicator; the promise has a
  \<^verbatim>\<open>catch\<close> whose handler does nothing. \<open>typing_fails\<close> lists the chats for which the
  promise is rejected.
\<close>

definition catch_ignore :: "promise \<Rightarrow> adapter \<Rightarrow> adapter" where
  "catch_ignore p s = (case p of Fulfilled \<Rightarrow> s | Rejected e \<Rightarrow> s)"

fun typing_loop :: "int list \<Rightarrow> (string \<times> PendingMessage) list \<Rightarrow> adapter \<Rightarrow> outcome" where
  "typing_loop typing_fails [] s = Returned s"
| "typing_loop typing_fails ((k, data) # entries) s =
     typing_loop typing_fails entries
       (catch_ignore (settled (chatId data \<in> set typing_fails))
          (issue (SendChatAction (chatId data)) s))"

definition typing_refresh :: "int list \<Rightarrow> adapter \<Rightarrow> outcome" where
  "typing_refresh typing_fails s = typing_loop typing_fails (pendingMessages s) s"

subsection \<open>Start-up: the bot token check (lines 19-31, 70, 176-191)\<close>

datatype startup_event =
    EnsureDirectories
  | ConsoleError string
  | ProcessExit int
  | NewTelegraf string
  | RegisterTextHandler
  | SetIntervalCheckOutgoingQueue nat
  | SetIntervalTypingRefresh nat
  | BotLaunch

text \<open>
  The module's top level, as the list of its effects in program order (the signal
  handlers of lines 194-203 left out). \<^verbatim>\<open>process.env.TELEGRAM_BOT_TOKEN\<close> is a string or
  \<^verbatim>\<open>undefined\<close> (\<open>None\<close>); \<^verbatim>\<open>!TELEGRAM_BOT_TOKEN\<close> holds for \<^verbatim>\<open>undefined\<close> and for
  the empty string. \<^verbatim>\<open>process.exit(1)\<close> ends the process: nothing after it runs.
\<close>

definition startup :: "string option \<Rightarrow> startup_event list" where
  "startup TELEGRAM_BOT_TOKEN =
     EnsureDirectories #
     (case TELEGRAM_BOT_TOKEN of
        None \<Rightarrow>
          [ConsoleError ''ERROR: TELEGRAM_BOT_TOKEN is not set in .env file'', ProcessExit 1]
      | Some token \<Rightarrow>
          if token = [] \<or> token = ''your_token_here''
          then [ConsoleError ''ERROR: TELEGRAM_BOT_TOKEN is not set in .env file'',
                ProcessExit 1]
          else [NewTelegraf token,
                RegisterTextHandler,
                SetIntervalCheckOutgoingQueue 1000,
                SetIntervalTypingRefresh 4000,
                BotLaunch])"

section \<open>Auxiliary definitions\<close>

subsection \<open>Reading a decimal numeral back\<close>

text \<open>Used only to show that \<^const>\<open>show_nat\<close> is injective.\<close>

definition digit_val :: "char \<Rightarrow> nat" where
  "digit_val c = of_char c - 48"

definition read_nat :: "string \<Rightarrow> nat" where
  "read_nat ds = foldl (\<lambda>a c. 10 * a + digit_val c) 0 ds"

subsection \<open>Example inputs\<close>

text \<open>The state of a freshly started adapter with empty queue directories.\<close>

definition fresh :: adapter where
  "fresh = \<lparr>pendingMessages = [], incoming = [], outgoing = [], reset_flag = None,
            log_file = [], calls = [], unhandled_rejections = []\<rparr>"

text \<open>A run of the handler in which every clock reading is \<open>now\<close> and no call fails.\<close>

definition calm :: "int \<Rightarrow> string \<Rightarrow> handler_env" where
  "calm now suffix =
     \<lparr>now_id = now, now_queued = now, now_pending = now, now_cleanup = now,
      random_suffix = suffix, write_flag_fails = False, reply_fails = False,
      chat_action_fails = False, write_queue_fails = False\<rparr>"

text \<open>A poll at clock reading \<open>t\<close> in which no call fails.\<close>

definition quiet_poll :: "int \<Rightarrow> poll_env" where
  "quiet_poll t =
     \<lparr>poll_time = t, readdir_fails = False, read_fails = [], unlink_fails = [],
      send_fails = []\<rparr>"

definition alice_hello :: ctx where
  "alice_hello = \<lparr>first_name = ''Alice'', username = Some ''alice'', chat_id = 42,
                  message_id = 7, msg_text = ''hello''\<rparr>"

definition bob_reset :: ctx where
  "bob_reset = \<lparr>first_name = [], username = None, chat_id = - 1001,
                message_id = 8, msg_text = ''/Reset''\<rparr>"

definition carol_hi :: ctx where
  "carol_hi = \<lparr>first_name = [], username = Some ''carol'', chat_id = 99,
                message_id = 3, msg_text = ''hi''\<rparr>"

definition stale_pending :: adapter where
  "stale_pending =
     (state_of (handle_text (calm 0 ''k3x9q'') alice_hello fresh))
       \<lparr>outgoing :=
          [(''telegram_0_k3x9q.json'',
            Parses (JObject [(''channel'', JString ''telegram''),
                             (''sender'', JString ''Alice''),
                             (''message'', JString ''late answer''),
                             (''originalMessage'', JString ''hello''),
                             (''timestamp'', JNumber 3500000),
                             (''messageId'', JString ''0_k3x9q'')]))]\<rparr>"

text \<open>A poll at clock reading \<open>t\<close> in which the listed calls fail.\<close>

definition failing_poll :: "int \<Rightarrow> string list \<Rightarrow> string list \<Rightarrow> int list \<Rightarrow> poll_env" where
  "failing_poll t unreadable undeletable unreachable =
     \<lparr>poll_time = t, readdir_fails = False, read_fails = unreadable,
      unlink_fails = undeletable, send_fails = unreachable\<rparr>"

text \<open>A response as the queue processor writes it.\<close>

definition response :: "string \<Rightarrow> string \<Rightarrow> json" where
  "response k answer =
     JObject [(''channel'', JString ''telegram''),
              (''sender'', JString ''Alice''),
              (''message'', JString answer),
              (''originalMessage'', JString ''hello''),
              (''timestamp'', JNumber 2000),
              (''messageId'', JString k)]"

text \<open>
  Alice's message is pending; the outgoing directory holds a file that is not JSON, a
  file that cannot be read, a response nobody waits for, a Discord response, and the
  response to Alice.
\<close>

definition busy :: adapter where
  "busy =
     \<lparr>pendingMessages = [(''1000_k3x9q'', \<lparr>chatId = 42, messageId = 7, timestamp = 1000\<rparr>)],
      incoming = [],
      outgoing =
        [(''telegram_1_bad.json'', Unparseable),
         (''telegram_2_locked.json'', Parses (response ''2_locked'' ''never read'')),
         (''telegram_3_orphan.json'', Parses (response ''3_orphan'' ''too late'')),
         (''discord_4_other.json'', Parses (response ''1000_k3x9q'' ''not ours'')),
         (''telegram_1000_k3x9q.json'', Parses (response ''1000_k3x9q'' ''hi Alice''))],
      reset_flag = None, log_file = [], calls = [], unhandled_rejections = []\<rparr>"

text \<open>Only a file that is not JSON waits in the outgoing directory.\<close>

definition poisoned :: adapter where
  "poisoned = fresh\<lparr>outgoing := [(''telegram_1_bad.json'', Unparseable)]\<rparr>"

text \<open>
  Alice's message is pending and the response to it has no \<^verbatim>\<open>message\<close> member.
\<close>

definition textless :: adapter where
  "textless =
     \<lparr>pendingMessages = [(''1000_k3x9q'', \<lparr>chatId = 42, messageId = 7, timestamp = 1000\<rparr>)],
      incoming = [],
      outgoing =
        [(''telegram_1000_k3x9q.json'',
          Parses (JObject [(''channel'', JString ''telegram''),
                           (''messageId'', JString ''1000_k3x9q'')]))],
      reset_flag = None, log_file = [], calls = [], unhandled_rejections = []\<rparr>"

text \<open>Alice's message is pending and nothing else has happened.\<close>

definition alice_waiting :: adapter where
  "alice_waiting =
     \<lparr>pendingMessages = [(''1000_k3x9q'', \<lparr>chatId = 42, messageId = 7, timestamp = 1000\<rparr>)],
      incoming = [], outgoing = [], reset_flag = None, log_file = [], calls = [],
      unhandled_rejections = []\<rparr>"

text \<open>The handler's environment of \<^const>\<open>calm\<close>, with failing platform calls.\<close>

definition unreachable :: "int \<Rightarrow> string \<Rightarrow> handler_env" where
  "unreachable now suffix = (calm now suffix)\<lparr>reply_fails := True, chat_action_fails := True\<rparr>"

section \<open>Properties\<close>

subsection \<open>Decimal rendering is injective\<close>

lemma digit_char_in: "d < 10 \<Longrightarrow> digit_char d \<in> set ''0123456789''"
  unfolding digit_char_def by (rule nth_mem) simp

lemma lt10: "(d::nat) < 10 \<Longrightarrow> d = 0 \<or> d = 1 \<or> d = 2 \<or> d = 3 \<or> d = 4 \<or> d = 5 \<or> d = 6 \<or> d = 7 \<or> d = 8 \<or> d = 9"
  by arith

lemma digit_val_digit_char:
  assumes "d < 10"
  shows "digit_val (digit_char d) = d"
  using lt10 [OF assms] by (elim disjE) (simp_all add: digit_val_def digit_char_def)

lemma show_nat_digits: "set (show_nat n) \<subseteq> set ''0123456789''"
proof (induction n rule: show_nat.induct)
  case (1 n)
  show ?case
  proof (cases "n < 10")
    case True
    then show ?thesis using digit_char_in [of n] by (subst show_nat.simps) simp
  next
    case False
    then have "set (show_nat (n div 10)) \<subseteq> set ''0123456789''" using 1 by simp
    moreover have "digit_char (n mod 10) \<in> set ''0123456789''" by (rule digit_char_in) simp
    ultimately show ?thesis using False by (subst show_nat.simps) simp
  qed
qed

lemma read_nat_snoc: "read_nat (ds @ [c]) = 10 * read_nat ds + digit_val c"
  by (simp add: read_nat_def)

lemma read_show_nat: "read_nat (show_nat n) = n"
proof (induction n rule: show_nat.induct)
  case (1 n)
  show ?case
  proof (cases "n < 10")
    case True
    then show ?thesis
      by (subst show_nat.simps) (simp add: read_nat_def digit_val_digit_char)
  next
    case False
    then have "read_nat (show_nat (n div 10)) = n div 10" using 1 by simp
    then show ?thesis using False
      by (subst show_nat.simps) (simp add: read_nat_snoc digit_val_digit_char)
  qed
qed

lemma show_nat_inj: "show_nat a = show_nat b \<Longrightarrow> a = b"
  by (metis read_show_nat)

lemma show_nat_not_Nil: "show_nat n \<noteq> []"
  by (subst show_nat.simps) simp

lemma minus_not_digit: "CHR ''-'' \<notin> set (show_nat n)"
  using show_nat_digits [of n] by auto

lemma underscore_not_digit: "CHR ''_'' \<notin> set (show_nat n)"
  using show_nat_digits [of n] by auto

lemma show_int_inj:
  assumes eq: "show_int a = show_int b"
  shows "a = b"
proof -
  have mixed: "False" if "i < 0" "\<not> j < 0" "show_int i = show_int j" for i j
  proof -
    from that have "CHR ''-'' # show_nat (nat (- i)) = show_nat (nat j)"
      by (simp add: show_int_def)
    then have "CHR ''-'' \<in> set (show_nat (nat j))"
      by (metis list.set_intros(1))
    then show False using minus_not_digit by blast
  qed
  consider "a < 0" "b < 0" | "a < 0" "\<not> b < 0" | "\<not> a < 0" "b < 0" | "\<not> a < 0" "\<not> b < 0"
    by blast
  then show ?thesis
  proof cases
    case 1
    with eq have "show_nat (nat (- a)) = show_nat (nat (- b))" by (simp add: show_int_def)
    then have "nat (- a) = nat (- b)" by (rule show_nat_inj)
    with 1 show ?thesis by linarith
  next
    case 2
    then show ?thesis using mixed [of a b] eq by simp
  next
    case 3
    then show ?thesis using mixed [of b a] eq by simp
  next
    case 4
    with eq have "show_nat (nat a) = show_nat (nat b)" by (simp add: show_int_def)
    then have "nat a = nat b" by (rule show_nat_inj)
    with 4 show ?thesis by linarith
  qed
qed

lemma underscore_not_in_show_int: "CHR ''_'' \<notin> set (show_int i)"
  using underscore_not_digit by (simp add: show_int_def)

lemma split_at_first:
  "x \<notin> set xs \<Longrightarrow>
   takeWhile (\<lambda>c. c \<noteq> x) (xs @ x # ys) = xs \<and>
   dropWhile (\<lambda>c. c \<noteq> x) (xs @ x # ys) = x # ys"
  by (induction xs) auto

lemma append_sep_inj:
  assumes "x \<notin> set xs" "x \<notin> set xs'" "xs @ x # ys = xs' @ x # ys'"
  shows "xs = xs' \<and> ys = ys'"
proof -
  have "xs = takeWhile (\<lambda>c. c \<noteq> x) (xs @ x # ys)"
    using assms(1) by (simp add: split_at_first)
  also have "\<dots> = takeWhile (\<lambda>c. c \<noteq> x) (xs' @ x # ys')"
    by (simp only: assms(3))
  also have "\<dots> = xs'"
    using assms(2) by (simp add: split_at_first)
  finally have "xs = xs'" .
  with assms(3) show ?thesis by simp
qed

text \<open>
  The id of line 98 determines the clock reading and the random suffix it was built from:
  the decimal numeral has no underscore, so the first underscore separates the two.
\<close>

lemma internalMessageId_inj:
  "internalMessageId_of e1 = internalMessageId_of e2 \<longleftrightarrow>
     now_id e1 = now_id e2 \<and> random_suffix e1 = random_suffix e2"
proof
  assume "internalMessageId_of e1 = internalMessageId_of e2"
  then have eq: "show_int (now_id e1) @ CHR ''_'' # random_suffix e1 =
             show_int (now_id e2) @ CHR ''_'' # random_suffix e2"
    by (simp add: internalMessageId_of_def)
  have "show_int (now_id e1) = show_int (now_id e2) \<and> random_suffix e1 = random_suffix e2"
    using underscore_not_in_show_int underscore_not_in_show_int eq by (rule append_sep_inj)
  then show "now_id e1 = now_id e2 \<and> random_suffix e1 = random_suffix e2"
    using show_int_inj by blast
next
  assume "now_id e1 = now_id e2 \<and> random_suffix e1 = random_suffix e2"
  then show "internalMessageId_of e1 = internalMessageId_of e2"
    by (simp add: internalMessageId_of_def)
qed

subsection \<open>The reset pattern\<close>

text \<open>
  A text that matches the pattern has six code units, none of them white space, so
  trimming leaves it as it is: the handler's test accepts every text the pattern accepts.
  It accepts more: the same commands surrounded by white space.
\<close>

lemma not_white_space_bang: "c \<in> set ''!/'' \<Longrightarrow> \<not> is_white_space c"
  by (auto simp: is_white_space_def)

lemma not_white_space_t: "c \<in> set ''tT'' \<Longrightarrow> \<not> is_white_space c"
  by (auto simp: is_white_space_def)

lemma matches_classes_length: "matches_classes p t \<Longrightarrow> length t = length p"
  by (induction p t rule: matches_classes.induct) auto

lemma reset_pattern_shape:
  assumes "matches_reset_pattern t"
  obtains c0 c1 c2 c3 c4 c5 where "t = [c0, c1, c2, c3, c4, c5]"
    "c0 \<in> set ''!/''" "c5 \<in> set ''tT''"
proof -
  from assms have len: "length t = 6"
    using matches_classes_length [of reset_pattern t]
    by (simp add: matches_reset_pattern_def reset_pattern_def)
  then obtain c0 c1 c2 c3 c4 c5 where t: "t = [c0, c1, c2, c3, c4, c5]"
    by (auto simp: length_Suc_conv eval_nat_numeral)
  with assms have "c0 \<in> set ''!/''" "c5 \<in> set ''tT''"
    by (simp_all add: matches_reset_pattern_def reset_pattern_def)
  with t show thesis by (rule that)
qed

lemma trim_reset_pattern:
  assumes "matches_reset_pattern t"
  shows "trim t = t"
proof -
  from assms obtain c0 c1 c2 c3 c4 c5 where t: "t = [c0, c1, c2, c3, c4, c5]"
    and c0: "c0 \<in> set ''!/''" and c5: "c5 \<in> set ''tT''"
    by (rule reset_pattern_shape)
  from c0 have "\<not> is_white_space c0" by (rule not_white_space_bang)
  moreover from c5 have "\<not> is_white_space c5" by (rule not_white_space_t)
  ultimately show ?thesis by (simp add: t trim_def)
qed

lemma reset_pattern_is_reset_command:
  "matches_reset_pattern t \<Longrightarrow> is_reset_command t"
  by (simp add: is_reset_command_def trim_reset_pattern)

lemma reset_command_is_trimmed:
  "is_reset_command '' /reset  '' \<and> \<not> matches_reset_pattern '' /reset  ''"
  by (simp add: is_reset_command_def matches_reset_pattern_def reset_pattern_def trim_def
      is_white_space_def)

subsection \<open>The handler, path by path\<close>

lemmas handler_defs =
  handle_text_def handle_text_body_def log_def issue_def await_def settled_def Let_def

lemma sender_of_not_empty: "sender_of c \<noteq> []"
  by (simp add: sender_of_def split: option.split)

lemma queueData_fields:
  "property ''channel'' (queueData env c) = Inr (Some (JString ''telegram''))"
  "property ''sender'' (queueData env c) = Inr (Some (JString (sender_of c)))"
  "property ''senderId'' (queueData env c) = Inr (Some (JString (show_int (chat_id c))))"
  "property ''message'' (queueData env c) = Inr (Some (JString (msg_text c)))"
  "property ''timestamp'' (queueData env c) = Inr (Some (JNumber (real_of_int (now_queued env))))"
  "property ''messageId'' (queueData env c) = Inr (Some (JString (internalMessageId_of env)))"
  by (simp_all add: queueData_def)

text \<open>
  A reset command: the write of the flag file may throw, then the reply may be rejected;
  either is caught and logged.
\<close>

lemma handle_text_reset:
  assumes "is_reset_command (msg_text c)"
  shows "handle_text env c s =
     Returned
      (if write_flag_fails env then
         s\<lparr>log_file := log_file s @
              [(INFO, MessageFrom (sender_of c) (take 50 (msg_text c))),
               (INFO, ResetCommandReceived),
               (ERROR, MessageHandlingError FsWriteError)]\<rparr>
       else if reply_fails env then
         s\<lparr>log_file := log_file s @
              [(INFO, MessageFrom (sender_of c) (take 50 (msg_text c))),
               (INFO, ResetCommandReceived),
               (ERROR, MessageHandlingError TelegramError)],
            reset_flag := Some ''reset'',
            calls := calls s @ [Reply (chat_id c)
              ''Conversation reset! Next message will start a fresh conversation.'']\<rparr>
       else
         s\<lparr>log_file := log_file s @
              [(INFO, MessageFrom (sender_of c) (take 50 (msg_text c))),
               (INFO, ResetCommandReceived)],
            reset_flag := Some ''reset'',
            calls := calls s @ [Reply (chat_id c)
              ''Conversation reset! Next message will start a fresh conversation.'']\<rparr>)"
  using assms by (simp add: handler_defs)

text \<open>
  Any other text: the typing indicator may be rejected and the write of the queue file
  may throw; either is caught and logged, and the message is not queued.
\<close>

lemma handle_text_message:
  assumes "\<not> is_reset_command (msg_text c)"
  shows "handle_text env c s =
     Returned
      (if chat_action_fails env then
         s\<lparr>log_file := log_file s @
              [(INFO, MessageFrom (sender_of c) (take 50 (msg_text c))),
               (ERROR, MessageHandlingError TelegramError)],
            calls := calls s @ [SendChatAction (chat_id c)]\<rparr>
       else if write_queue_fails env then
         s\<lparr>log_file := log_file s @
              [(INFO, MessageFrom (sender_of c) (take 50 (msg_text c))),
               (ERROR, MessageHandlingError FsWriteError)],
            calls := calls s @ [SendChatAction (chat_id c)]\<rparr>
       else
         s\<lparr>log_file := log_file s @
              [(INFO, MessageFrom (sender_of c) (take 50 (msg_text c))),
               (INFO, QueuedMessage (internalMessageId_of env))],
            calls := calls s @ [SendChatAction (chat_id c)],
            incoming := AList.update (queueFile env) (Parses (queueData env c)) (incoming s),
            pendingMessages :=
              cleanup (now_cleanup env - 600000)
                (AList.update (internalMessageId_of env)
                   \<lparr>chatId = chat_id c, messageId = message_id c,
                    timestamp = now_pending env\<rparr>
                   (pendingMessages s))\<rparr>)"
  using assms by (simp add: handler_defs)

lemma handle_text_queued:
  assumes "\<not> is_reset_command (msg_text c)"
      and "\<not> chat_action_fails env" and "\<not> write_queue_fails env"
  shows "handle_text env c s =
     Returned
       (s\<lparr>log_file := log_file s @
            [(INFO, MessageFrom (sender_of c) (take 50 (msg_text c))),
             (INFO, QueuedMessage (internalMessageId_of env))],
          calls := calls s @ [SendChatAction (chat_id c)],
          incoming := AList.update (queueFile env) (Parses (queueData env c)) (incoming s),
          pendingMessages :=
            cleanup (now_cleanup env - 600000)
              (AList.update (internalMessageId_of env)
                 \<lparr>chatId = chat_id c, messageId = message_id c,
                  timestamp = now_pending env\<rparr>
                 (pendingMessages s))\<rparr>)"
  using assms by (simp add: handle_text_message)

lemma handle_text_outgoing:
  assumes "handle_text env c s = Returned s'"
  shows "outgoing s' = outgoing s"
proof (cases "is_reset_command (msg_text c)")
  case True
  with assms show ?thesis by (auto simp: handle_text_reset split: if_splits)
next
  case False
  with assms show ?thesis by (auto simp: handle_text_message split: if_splits)
qed

text \<open>
  The clean-up keeps exactly the entries that are not older than the bound.
\<close>

lemma map_of_cleanup_kept:
  "map_of m k = Some v \<Longrightarrow> \<not> timestamp v < t \<Longrightarrow> map_of (cleanup t m) k = Some v"
  unfolding cleanup_def by (rule map_of_filter_in)

lemma map_of_cleanup_fresh:
  assumes "map_of (cleanup t m) k = Some v"
  shows "\<not> timestamp v < t"
proof -
  from assms have "(k, v) \<in> set (cleanup t m)" by (rule map_of_SomeD)
  then show ?thesis by (simp add: cleanup_def)
qed

lemma map_of_cleanup_dropped:
  assumes "distinct (map fst m)" and "map_of m k = Some v" and "timestamp v < t"
  shows "map_of (cleanup t m) k = None"
proof (rule ccontr)
  assume "map_of (cleanup t m) k \<noteq> None"
  then obtain w where w: "map_of (cleanup t m) k = Some w" by blast
  then have "(k, w) \<in> set (cleanup t m)" by (rule map_of_SomeD)
  then have "(k, w) \<in> set m" and fresh: "\<not> timestamp w < t" by (simp_all add: cleanup_def)
  with assms(1) have "map_of m k = Some w" by simp
  with assms(2) have "w = v" by simp
  with fresh assms(3) show False by simp
qed

lemma cleanup_distinct:
  "distinct (map fst m) \<Longrightarrow> distinct (map fst (cleanup t m))"
  unfolding cleanup_def by (rule distinct_map_filter)

text \<open>
  The tracker is a \<^verbatim>\<open>Map\<close>: every key occurs once, in every state the callbacks
  reach from one where this holds.
\<close>

lemma handle_text_distinct:
  assumes "distinct (map fst (pendingMessages s))"
      and "handle_text env c s = Returned s'"
  shows "distinct (map fst (pendingMessages s'))"
proof (cases "is_reset_command (msg_text c)")
  case True
  with assms show ?thesis by (auto simp: handle_text_reset split: if_splits)
next
  case False
  with assms show ?thesis
    by (auto simp: handle_text_message cleanup_distinct distinct_update split: if_splits)
qed

subsection \<open>One iteration of the outgoing poll\<close>

lemmas poll_defs =
  checkOutgoingQueue_def response_files_def startsWith_def endsWith_def
  process_response_def process_response_body_def read_json_def pending_get_def
  pending_delete_def sendMessage_def unlinkSync_def log_def issue_def settled_def Let_def

lemma property_defined:
  "property k r = Inr x \<Longrightarrow> \<exists>y. property k' r = Inr y"
  by (cases r) auto

lemma read_json_Inr:
  "read_json env file s = Inr r \<longleftrightarrow>
     file \<notin> set (read_fails env) \<and> map_of (outgoing s) file = Some (Parses r)"
  by (auto simp: read_json_def split: option.splits file_body.splits)

lemma sendMessage_fields:
  "pendingMessages (sendMessage env chat responseText reply_to s) = pendingMessages s"
  "incoming (sendMessage env chat responseText reply_to s) = incoming s"
  "outgoing (sendMessage env chat responseText reply_to s) = outgoing s"
  "reset_flag (sendMessage env chat responseText reply_to s) = reset_flag s"
  "log_file (sendMessage env chat responseText reply_to s) = log_file s"
  "calls (sendMessage env chat responseText reply_to s) =
     calls s @ [SendMessage chat responseText reply_to]"
  by (simp_all add: sendMessage_def issue_def settled_def Let_def)

text \<open>
  The four ways through the body of the loop: the file cannot be read or parsed; it holds
  \<^verbatim>\<open>null\<close>; its \<^verbatim>\<open>messageId\<close> finds no pending entry; it finds one.
\<close>

lemma process_response_failed_read:
  assumes "read_json env file s = Inl e"
  shows "process_response env file s =
           Returned (log ERROR (ErrorProcessingResponseFile file e) s)"
  using assms by (simp add: process_response_def process_response_body_def)

lemma process_response_null:
  assumes "read_json env file s = Inr JNull"
  shows "process_response env file s =
           Returned (log ERROR (ErrorProcessingResponseFile file TypeError) s)"
  using assms by (simp add: process_response_def process_response_body_def)

lemma process_response_orphan:
  assumes "read_json env file s = Inr r"
      and "property ''messageId'' r = Inr key"
      and "pending_get key (pendingMessages s) = None"
  shows "process_response env file s =
     Returned
      (if file \<in> set (unlink_fails env) then
         s\<lparr>log_file := log_file s @
              [(WARN, NoPendingMessageFor key),
               (ERROR, ErrorProcessingResponseFile file FsUnlinkError)]\<rparr>
       else
         s\<lparr>log_file := log_file s @ [(WARN, NoPendingMessageFor key)],
            outgoing := AList.delete file (outgoing s)\<rparr>)"
proof -
  from assms(2) obtain responseText where responseText: "property ''message'' r = Inr responseText"
    using property_defined by blast
  from assms(2) obtain sender where sender: "property ''sender'' r = Inr sender"
    using property_defined by blast
  from assms(1) have "map_of (outgoing s) file = Some (Parses r)"
    by (simp add: read_json_Inr)
  with assms responseText sender show ?thesis
    by (simp add: process_response_def process_response_body_def unlinkSync_def log_def)
qed

lemma process_response_matched:
  assumes "read_json env file s = Inr r"
      and "property ''messageId'' r = Inr (Some (JString k))"
      and "property ''message'' r = Inr txt"
      and "property ''sender'' r = Inr sender"
      and "map_of (pendingMessages s) k = Some p"
  shows "process_response env file s =
     Returned
      (case property_of ''length'' txt of
         Inl e \<Rightarrow>
           (sendMessage env (chatId p) txt (messageId p) s)
             \<lparr>log_file := log_file s @ [(ERROR, ErrorProcessingResponseFile file e)]\<rparr>
       | Inr n \<Rightarrow>
           if file \<in> set (unlink_fails env) then
             (sendMessage env (chatId p) txt (messageId p) s)
               \<lparr>log_file := log_file s @
                    [(INFO, SentResponseTo sender n),
                     (ERROR, ErrorProcessingResponseFile file FsUnlinkError)],
                pendingMessages := AList.delete k (pendingMessages s)\<rparr>
           else
             (sendMessage env (chatId p) txt (messageId p) s)
               \<lparr>log_file := log_file s @ [(INFO, SentResponseTo sender n)],
                pendingMessages := AList.delete k (pendingMessages s),
                outgoing := AList.delete file (outgoing s)\<rparr>)"
proof -
  from assms(1) have "map_of (outgoing s) file = Some (Parses r)"
    by (simp add: read_json_Inr)
  with assms show ?thesis
    by (simp add: process_response_def process_response_body_def unlinkSync_def log_def
        sendMessage_def issue_def settled_def pending_get_def pending_delete_def Let_def
        split: sum.split)
qed

lemma read_json_cases:
  obtains (failed) e where "read_json env g s = Inl e"
  | (null) "read_json env g s = Inr JNull"
  | (orphan) r key where "read_json env g s = Inr r" "property ''messageId'' r = Inr key"
      "pending_get key (pendingMessages s) = None"
  | (matched) r k responseText sender p where "read_json env g s = Inr r"
      "property ''messageId'' r = Inr (Some (JString k))"
      "property ''message'' r = Inr responseText" "property ''sender'' r = Inr sender"
      "map_of (pendingMessages s) k = Some p"
proof (cases "read_json env g s")
  case (Inl e)
  then show ?thesis by (rule failed)
next
  case (Inr r)
  show ?thesis
  proof (cases "r = JNull")
    case True
    with Inr show ?thesis using null by simp
  next
    case False
    then obtain key where key: "property ''messageId'' r = Inr key"
      by (cases r) auto
    then obtain responseText sender where
      fields: "property ''message'' r = Inr responseText" "property ''sender'' r = Inr sender"
      using property_defined by blast
    show ?thesis
    proof (cases "pending_get key (pendingMessages s)")
      case None
      with Inr key show ?thesis by (rule orphan)
    next
      case (Some p)
      then obtain k where "key = Some (JString k)" "map_of (pendingMessages s) k = Some p"
        by (auto simp: pending_get_def split: option.splits json.splits)
      with Inr key fields show ?thesis using matched by blast
    qed
  qed
qed

lemma process_response_returns: "\<exists>s'. process_response env file s = Returned s'"
  by (simp add: process_response_def split: outcome.split)

text \<open>
  What one iteration can change: it may delete its own file, it may delete the entry of
  the response's id, and it appends to the log and to the calls.
\<close>

lemma process_response_step:
  obtains s1 where "process_response env g s = Returned s1"
    and "outgoing s1 = outgoing s \<or> outgoing s1 = AList.delete g (outgoing s)"
    and "pendingMessages s1 = pendingMessages s \<or>
         (\<exists>r k. read_json env g s = Inr r \<and>
                property ''messageId'' r = Inr (Some (JString k)) \<and>
                pendingMessages s1 = AList.delete k (pendingMessages s))"
    and "\<exists>lines. log_file s1 = log_file s @ lines"
    and "\<exists>cs. calls s1 = calls s @ cs"
    and "incoming s1 = incoming s" and "reset_flag s1 = reset_flag s"
proof (cases rule: read_json_cases [of env g s])
  case (failed e)
  then show ?thesis using that
    by (simp add: process_response_failed_read log_def)
next
  case null
  then show ?thesis using that
    by (simp add: process_response_null log_def)
next
  case (orphan r key)
  then show ?thesis using that
    by (simp add: process_response_orphan)
next
  case (matched r k responseText sender p)
  note run = process_response_matched [OF matched]
  show ?thesis
  proof (cases "property_of ''length'' responseText")
    case (Inl e)
    with run show ?thesis using that by (simp add: sendMessage_fields)
  next
    case (Inr n)
    show ?thesis
    proof (cases "g \<in> set (unlink_fails env)")
      case True
      with run Inr matched(1,2) show ?thesis using that [of "(sendMessage env (chatId p) responseText (messageId p) s)
               \<lparr>log_file := log_file s @
                    [(INFO, SentResponseTo sender n),
                     (ERROR, ErrorProcessingResponseFile g FsUnlinkError)],
                pendingMessages := AList.delete k (pendingMessages s)\<rparr>"]
        by (simp add: sendMessage_fields)
    next
      case False
      with run Inr matched(1,2) show ?thesis using that [of "(sendMessage env (chatId p) responseText (messageId p) s)
               \<lparr>log_file := log_file s @ [(INFO, SentResponseTo sender n)],
                pendingMessages := AList.delete k (pendingMessages s),
                outgoing := AList.delete g (outgoing s)\<rparr>"]
        by (simp add: sendMessage_fields)
    qed
  qed
qed

lemma process_response_distinct:
  assumes "distinct (map fst (pendingMessages s))"
      and "process_response env g s = Returned s1"
  shows "distinct (map fst (pendingMessages s1))"
proof -
  obtain s1' where "process_response env g s = Returned s1'"
    and "pendingMessages s1' = pendingMessages s \<or>
         (\<exists>r k. read_json env g s = Inr r \<and>
                property ''messageId'' r = Inr (Some (JString k)) \<and>
                pendingMessages s1' = AList.delete k (pendingMessages s))"
    by (rule process_response_step)
  with assms show ?thesis by (auto simp: distinct_delete)
qed

lemma read_json_other:
  assumes "outgoing s1 = outgoing s \<or> outgoing s1 = AList.delete g (outgoing s)"
      and "g \<noteq> f"
  shows "read_json env f s1 = read_json env f s"
  using assms by (auto simp: read_json_def)

lemma read_json_shrinks:
  assumes "outgoing s1 = outgoing s \<or> outgoing s1 = AList.delete g (outgoing s)"
      and "read_json env f s1 = Inr r"
  shows "read_json env f s = Inr r"
  using assms by (auto simp: read_json_Inr delete_conv' split: if_splits)

lemma pending_get_delete_None:
  "pending_get key m = None \<Longrightarrow> pending_get key (AList.delete k m) = None"
  by (auto simp: pending_get_def delete_conv' split: option.splits json.splits)

subsection \<open>The whole poll\<close>

lemma for_files_fold:
  "for_files env files s =
     Returned (foldl (\<lambda>s file. state_of (process_response env file s)) s files)"
proof (induction files arbitrary: s)
  case Nil
  show ?case by simp
next
  case (Cons f fs)
  obtain s' where "process_response env f s = Returned s'"
    using process_response_returns by blast
  then show ?case using Cons.IH [of s'] by simp
qed

lemma checkOutgoingQueue_listing_failed:
  "readdir_fails env \<Longrightarrow>
   checkOutgoingQueue env s = Returned (log ERROR (OutgoingQueueError FsReaddirError) s)"
  by (simp add: checkOutgoingQueue_def response_files_def)

lemma checkOutgoingQueue_fold:
  "response_files env s = Inr files \<Longrightarrow>
   checkOutgoingQueue env s =
     Returned (foldl (\<lambda>s file. state_of (process_response env file s)) s files)"
  by (simp add: checkOutgoingQueue_def for_files_fold)

lemma checkOutgoingQueue_for_files:
  assumes "\<not> readdir_fails env"
  shows "checkOutgoingQueue env s =
     Returned (state_of (for_files env
       (filter (\<lambda>f. startsWith ''telegram_'' f \<and> endsWith ''.json'' f)
          (map fst (outgoing s))) s))"
  using assms by (simp add: checkOutgoingQueue_def response_files_def for_files_fold)

lemma listed:
  assumes "read_json env f s = Inr r"
      and "startsWith ''telegram_'' f" and "endsWith ''.json'' f"
  shows "f \<in> set (filter (\<lambda>f. startsWith ''telegram_'' f \<and> endsWith ''.json'' f)
          (map fst (outgoing s)))"
proof -
  from assms(1) have "map_of (outgoing s) f = Some (Parses r)" by (simp add: read_json_Inr)
  then have "(f, Parses r) \<in> set (outgoing s)" by (rule map_of_SomeD)
  then have "f \<in> set (map fst (outgoing s))" by force
  with assms(2,3) show ?thesis by simp
qed

text \<open>
  Across the iterations of one poll: a deleted file stays deleted, an id that is not
  pending stays so, and the log and the calls only grow.
\<close>

lemma for_files_gone_stays_gone:
  "map_of (outgoing s) f = None \<Longrightarrow>
   map_of (outgoing (state_of (for_files env fs s))) f = None"
proof (induction fs arbitrary: s)
  case Nil
  then show ?case by simp
next
  case (Cons g fs)
  obtain s1 where step: "process_response env g s = Returned s1"
    and "outgoing s1 = outgoing s \<or> outgoing s1 = AList.delete g (outgoing s)"
    by (rule process_response_step)
  with Cons.prems have "map_of (outgoing s1) f = None" by (auto simp: delete_conv')
  then have "map_of (outgoing (state_of (for_files env fs s1))) f = None" by (rule Cons.IH)
  with step show ?case by simp
qed

lemma for_files_not_pending_stays:
  "map_of (pendingMessages s) k = None \<Longrightarrow>
   map_of (pendingMessages (state_of (for_files env fs s))) k = None"
proof (induction fs arbitrary: s)
  case Nil
  then show ?case by simp
next
  case (Cons g fs)
  obtain s1 where step: "process_response env g s = Returned s1"
    and "pendingMessages s1 = pendingMessages s \<or>
         (\<exists>r k. read_json env g s = Inr r \<and>
                property ''messageId'' r = Inr (Some (JString k)) \<and>
                pendingMessages s1 = AList.delete k (pendingMessages s))"
    by (rule process_response_step)
  with Cons.prems have "map_of (pendingMessages s1) k = None" by (auto simp: delete_conv')
  then have "map_of (pendingMessages (state_of (for_files env fs s1))) k = None"
    by (rule Cons.IH)
  with step show ?case by simp
qed

lemma for_files_log_grows:
  "x \<in> set (log_file s) \<Longrightarrow> x \<in> set (log_file (state_of (for_files env fs s)))"
proof (induction fs arbitrary: s)
  case Nil
  then show ?case by simp
next
  case (Cons g fs)
  obtain s1 where step: "process_response env g s = Returned s1"
    and "\<exists>lines. log_file s1 = log_file s @ lines"
    by (rule process_response_step)
  with Cons.prems have "x \<in> set (log_file s1)" by auto
  then have "x \<in> set (log_file (state_of (for_files env fs s1)))" by (rule Cons.IH)
  with step show ?case by simp
qed

lemma for_files_calls_grow:
  "x \<in> set (calls s) \<Longrightarrow> x \<in> set (calls (state_of (for_files env fs s)))"
proof (induction fs arbitrary: s)
  case Nil
  then show ?case by simp
next
  case (Cons g fs)
  obtain s1 where step: "process_response env g s = Returned s1"
    and "\<exists>cs. calls s1 = calls s @ cs"
    by (rule process_response_step)
  with Cons.prems have "x \<in> set (calls s1)" by auto
  then have "x \<in> set (calls (state_of (for_files env fs s1)))" by (rule Cons.IH)
  with step show ?case by simp
qed

lemma for_files_incoming:
  "incoming (state_of (for_files env fs s)) = incoming s"
proof (induction fs arbitrary: s)
  case Nil
  show ?case by simp
next
  case (Cons g fs)
  obtain s1 where step: "process_response env g s = Returned s1"
    and "incoming s1 = incoming s"
    by (rule process_response_step)
  with Cons.IH [of s1] show ?case by simp
qed

lemma for_files_distinct:
  "distinct (map fst (pendingMessages s)) \<Longrightarrow>
   distinct (map fst (pendingMessages (state_of (for_files env fs s))))"
proof (induction fs arbitrary: s)
  case Nil
  then show ?case by simp
next
  case (Cons g fs)
  obtain s1 where step: "process_response env g s = Returned s1"
    using process_response_returns by blast
  with Cons.prems have "distinct (map fst (pendingMessages s1))"
    by (rule process_response_distinct)
  then have "distinct (map fst (pendingMessages (state_of (for_files env fs s1))))"
    by (rule Cons.IH)
  with step show ?case by simp
qed

lemma checkOutgoingQueue_distinct:
  assumes "distinct (map fst (pendingMessages s))"
  shows "distinct (map fst (pendingMessages (state_of (checkOutgoingQueue env s))))"
proof (cases "readdir_fails env")
  case True
  with assms show ?thesis by (simp add: checkOutgoingQueue_listing_failed log_def)
next
  case False
  with assms show ?thesis by (simp add: checkOutgoingQueue_for_files for_files_distinct)
qed

text \<open>
  A listed response is handled in its turn whatever happens to the files before it.
\<close>

lemma for_files_orphan:
  assumes "f \<in> set fs"
      and "read_json env f s = Inr r"
      and "property ''messageId'' r = Inr key"
      and "pending_get key (pendingMessages s) = None"
      and "f \<notin> set (unlink_fails env)"
  shows "map_of (outgoing (state_of (for_files env fs s))) f = None \<and>
         (WARN, NoPendingMessageFor key) \<in> set (log_file (state_of (for_files env fs s)))"
  using assms(1,2,4)
proof (induction fs arbitrary: s)
  case Nil
  then show ?case by simp
next
  case (Cons g fs)
  show ?case
  proof (cases "g = f")
    case True
    let ?s1 = "s\<lparr>log_file := log_file s @ [(WARN, NoPendingMessageFor key)],
                 outgoing := AList.delete f (outgoing s)\<rparr>"
    have step: "process_response env f s = Returned ?s1"
      using Cons.prems(2) assms(3) Cons.prems(3) assms(5)
      by (simp add: process_response_orphan)
    have "map_of (outgoing ?s1) f = None" by (simp add: delete_conv')
    then have "map_of (outgoing (state_of (for_files env fs ?s1))) f = None"
      by (rule for_files_gone_stays_gone)
    moreover have "(WARN, NoPendingMessageFor key) \<in> set (log_file ?s1)" by simp
    then have "(WARN, NoPendingMessageFor key)
        \<in> set (log_file (state_of (for_files env fs ?s1)))"
      by (rule for_files_log_grows)
    ultimately show ?thesis using True step by simp
  next
    case False
    obtain s1 where step: "process_response env g s = Returned s1"
      and out: "outgoing s1 = outgoing s \<or> outgoing s1 = AList.delete g (outgoing s)"
      and pend: "pendingMessages s1 = pendingMessages s \<or>
         (\<exists>r k. read_json env g s = Inr r \<and>
                property ''messageId'' r = Inr (Some (JString k)) \<and>
                pendingMessages s1 = AList.delete k (pendingMessages s))"
      by (rule process_response_step)
    from False Cons.prems(1) have "f \<in> set fs" by simp
    moreover from out False Cons.prems(2) have "read_json env f s1 = Inr r"
      by (simp add: read_json_other)
    moreover from pend Cons.prems(3) have "pending_get key (pendingMessages s1) = None"
      by (auto simp: pending_get_delete_None)
    ultimately have
      "map_of (outgoing (state_of (for_files env fs s1))) f = None \<and>
       (WARN, NoPendingMessageFor key) \<in> set (log_file (state_of (for_files env fs s1)))"
      by (rule Cons.IH)
    with step show ?thesis by simp
  qed
qed

lemma for_files_matched:
  assumes "f \<in> set fs"
      and "read_json env f s = Inr r"
      and "property ''messageId'' r = Inr (Some (JString k))"
      and "property ''message'' r = Inr (Some (JString responseText))"
      and "map_of (pendingMessages s) k = Some p"
      and "f \<notin> set (unlink_fails env)"
      and "\<And>g r'. g \<in> set fs \<Longrightarrow> g \<noteq> f \<Longrightarrow> read_json env g s = Inr r' \<Longrightarrow>
             property ''messageId'' r' \<noteq> Inr (Some (JString k))"
  shows "SendMessage (chatId p) (Some (JString responseText)) (messageId p)
           \<in> set (calls (state_of (for_files env fs s))) \<and>
         map_of (pendingMessages (state_of (for_files env fs s))) k = None \<and>
         map_of (outgoing (state_of (for_files env fs s))) f = None"
  using assms(1,2,5,7)
proof (induction fs arbitrary: s)
  case Nil
  then show ?case by simp
next
  case (Cons g fs)
  show ?case
  proof (cases "g = f")
    case True
    from assms(3) obtain sender where sender: "property ''sender'' r = Inr sender"
      using property_defined by blast
    let ?n = "Some (JNumber (real (length responseText)))"
    let ?s1 = "(sendMessage env (chatId p) (Some (JString responseText)) (messageId p) s)
               \<lparr>log_file := log_file s @ [(INFO, SentResponseTo sender ?n)],
                pendingMessages := AList.delete k (pendingMessages s),
                outgoing := AList.delete f (outgoing s)\<rparr>"
    have step: "process_response env f s = Returned ?s1"
      using process_response_matched [OF Cons.prems(2) assms(3) assms(4) sender Cons.prems(3)]
        assms(6)
      by simp
    have "SendMessage (chatId p) (Some (JString responseText)) (messageId p) \<in> set (calls ?s1)"
      by (simp add: sendMessage_fields)
    then have "SendMessage (chatId p) (Some (JString responseText)) (messageId p)
          \<in> set (calls (state_of (for_files env fs ?s1)))"
      by (rule for_files_calls_grow)
    moreover have "map_of (pendingMessages ?s1) k = None" by (simp add: delete_conv')
    then have "map_of (pendingMessages (state_of (for_files env fs ?s1))) k = None"
      by (rule for_files_not_pending_stays)
    moreover have "map_of (outgoing ?s1) f = None" by (simp add: delete_conv')
    then have "map_of (outgoing (state_of (for_files env fs ?s1))) f = None"
      by (rule for_files_gone_stays_gone)
    ultimately show ?thesis using True step by simp
  next
    case False
    obtain s1 where step: "process_response env g s = Returned s1"
      and out: "outgoing s1 = outgoing s \<or> outgoing s1 = AList.delete g (outgoing s)"
      and pend: "pendingMessages s1 = pendingMessages s \<or>
         (\<exists>r k. read_json env g s = Inr r \<and>
                property ''messageId'' r = Inr (Some (JString k)) \<and>
                pendingMessages s1 = AList.delete k (pendingMessages s))"
      by (rule process_response_step)
    from False Cons.prems(1) have "f \<in> set fs" by simp
    moreover from out False Cons.prems(2) have "read_json env f s1 = Inr r"
      by (simp add: read_json_other)
    moreover have "map_of (pendingMessages s1) k = Some p"
      using pend
    proof
      assume "pendingMessages s1 = pendingMessages s"
      with Cons.prems(3) show ?thesis by simp
    next
      assume "\<exists>r k. read_json env g s = Inr r \<and>
                property ''messageId'' r = Inr (Some (JString k)) \<and>
                pendingMessages s1 = AList.delete k (pendingMessages s)"
      then obtain r' k' where r': "read_json env g s = Inr r'"
        "property ''messageId'' r' = Inr (Some (JString k'))"
        "pendingMessages s1 = AList.delete k' (pendingMessages s)"
        by blast
      from Cons.prems(4) [OF _ False r'(1)] r'(2) have "k' \<noteq> k" by auto
      with r'(3) Cons.prems(3) show ?thesis by simp
    qed
    moreover have "property ''messageId'' r' \<noteq> Inr (Some (JString k))"
      if "g' \<in> set fs" "g' \<noteq> f" "read_json env g' s1 = Inr r'" for g' r'
    proof -
      from out that(3) have "read_json env g' s = Inr r'" by (rule read_json_shrinks)
      moreover from that(1) have "g' \<in> set (g # fs)" by simp
      ultimately show ?thesis using that(2) Cons.prems(4) by blast
    qed
    ultimately have
      "SendMessage (chatId p) (Some (JString responseText)) (messageId p)
           \<in> set (calls (state_of (for_files env fs s1))) \<and>
         map_of (pendingMessages (state_of (for_files env fs s1))) k = None \<and>
         map_of (outgoing (state_of (for_files env fs s1))) f = None"
      by (rule Cons.IH)
    with step show ?thesis by simp
  qed
qed

lemma for_files_unparseable:
  assumes "map_of (outgoing s) f = Some Unparseable"
  shows "map_of (outgoing (state_of (for_files env fs s))) f = Some Unparseable"
  using assms
proof (induction fs arbitrary: s)
  case Nil
  then show ?case by simp
next
  case (Cons g fs)
  obtain s1 where step: "process_response env g s = Returned s1"
    and out: "outgoing s1 = outgoing s \<or> outgoing s1 = AList.delete g (outgoing s)"
    by (rule process_response_step)
  have "map_of (outgoing s1) f = Some Unparseable"
  proof (cases "g = f")
    case True
    from Cons.prems have "\<exists>e. read_json env f s = Inl e"
      by (cases "f \<in> set (read_fails env)") (simp_all add: read_json_def)
    then obtain e where "read_json env f s = Inl e" ..
    then have "process_response env f s =
        Returned (log ERROR (ErrorProcessingResponseFile f e) s)"
      by (rule process_response_failed_read)
    with step True have "s1 = log ERROR (ErrorProcessingResponseFile f e) s" by simp
    with Cons.prems show ?thesis by (simp add: log_def)
  next
    case False
    with out Cons.prems show ?thesis by auto
  qed
  then have "map_of (outgoing (state_of (for_files env fs s1))) f = Some Unparseable"
    by (rule Cons.IH)
  with step show ?case by simp
qed

subsection \<open>The typing refresh\<close>

lemma typing_loop_result:
  "typing_loop fails entries s =
     Returned (s\<lparr>calls := calls s @ map (\<lambda>(k, data). SendChatAction (chatId data)) entries\<rparr>)"
  by (induction entries arbitrary: s)
     (auto simp: catch_ignore_def issue_def split: promise.split)

subsection \<open>The example inputs, evaluated\<close>

lemma carol_hi_not_reset: "\<not> is_reset_command (msg_text carol_hi)"
  by (simp add: carol_hi_def is_reset_command_def matches_reset_pattern_def
      reset_pattern_def trim_def is_white_space_def)

lemma stale_pending_eval:
  "stale_pending =
     \<lparr>pendingMessages = [(''0_k3x9q'', \<lparr>chatId = 42, messageId = 7, timestamp = 0\<rparr>)],
      incoming =
        [(''telegram_0_k3x9q.json'',
          Parses (JObject [(''channel'', JString ''telegram''),
                           (''sender'', JString ''Alice''),
                           (''senderId'', JString ''42''),
                           (''message'', JString ''hello''),
                           (''timestamp'', JNumber 0),
                           (''messageId'', JString ''0_k3x9q'')]))],
      outgoing =
        [(''telegram_0_k3x9q.json'',
          Parses (JObject [(''channel'', JString ''telegram''),
                           (''sender'', JString ''Alice''),
                           (''message'', JString ''late answer''),
                           (''originalMessage'', JString ''hello''),
                           (''timestamp'', JNumber 3500000),
                           (''messageId'', JString ''0_k3x9q'')]))],
      reset_flag = None,
      log_file = [(INFO, MessageFrom ''Alice'' ''hello''), (INFO, QueuedMessage ''0_k3x9q'')],
      calls = [SendChatAction 42], unhandled_rejections = []\<rparr>"
  by (simp add: stale_pending_def handler_defs calm_def alice_hello_def fresh_def
      is_reset_command_def matches_reset_pattern_def reset_pattern_def trim_def
      is_white_space_def queueFile_def queueData_def internalMessageId_of_def show_int_def
      show_nat.simps digit_char_def sender_of_def cleanup_def)

lemma busy_poll:
  "checkOutgoingQueue (failing_poll 5000 [''telegram_2_locked.json''] [] []) busy =
     Returned
      \<lparr>pendingMessages = [], incoming = [],
       outgoing =
         [(''telegram_1_bad.json'', Unparseable),
          (''telegram_2_locked.json'', Parses (response ''2_locked'' ''never read'')),
          (''discord_4_other.json'', Parses (response ''1000_k3x9q'' ''not ours''))],
       reset_flag = None,
       log_file =
         [(ERROR, ErrorProcessingResponseFile ''telegram_1_bad.json'' JsonSyntaxError),
          (ERROR, ErrorProcessingResponseFile ''telegram_2_locked.json'' FsReadError),
          (WARN, NoPendingMessageFor (Some (JString ''3_orphan''))),
          (INFO, SentResponseTo (Some (JString ''Alice'')) (Some (JNumber 8)))],
       calls = [SendMessage 42 (Some (JString ''hi Alice'')) 7],
       unhandled_rejections = []\<rparr>"
  by (simp add: poll_defs busy_def failing_poll_def response_def)

lemma busy_facts:
  "read_json (quiet_poll 5000) ''telegram_3_orphan.json'' busy =
     Inr (response ''3_orphan'' ''too late'')"
  "read_json (quiet_poll 5000) ''telegram_1000_k3x9q.json'' busy =
     Inr (response ''1000_k3x9q'' ''hi Alice'')"
  "property ''messageId'' (response k answer) = Inr (Some (JString k))"
  "property ''message'' (response k answer) = Inr (Some (JString answer))"
  "pending_get (Some (JString ''3_orphan'')) (pendingMessages busy) = None"
  "map_of (pendingMessages busy) ''1000_k3x9q'' =
     Some \<lparr>chatId = 42, messageId = 7, timestamp = 1000\<rparr>"
  "\<not> readdir_fails (quiet_poll 5000)"
  "unlink_fails (quiet_poll 5000) = []"
  by (simp_all add: read_json_def quiet_poll_def busy_def response_def pending_get_def)

section \<open>The claims\<close>

subsection \<open>Start-up without a token (C8)\<close>

text \<open>
  C8: when the bot token is missing (\<^verbatim>\<open>undefined\<close> or empty) or is the placeholder
  \<^verbatim>\<open>your_token_here\<close>, start-up prints an error to the console and calls
  \<^verbatim>\<open>process.exit(1)\<close>; this happens before the bot is created or launched, and the
  module does nothing afterwards, so nothing is tried again.
\<close>

theorem startup_without_token_exits:
  assumes "tok = None \<or> tok = Some [] \<or> tok = Some ''your_token_here''"
  shows "startup tok =
           [EnsureDirectories,
            ConsoleError ''ERROR: TELEGRAM_BOT_TOKEN is not set in .env file'',
            ProcessExit 1] \<and>
         BotLaunch \<notin> set (startup tok)"
  using assms by (auto simp: startup_def)

text \<open>
  The three rejected tokens.
\<close>

theorem startup_without_token_exits_witness:
  "startup None =
     [EnsureDirectories,
      ConsoleError ''ERROR: TELEGRAM_BOT_TOKEN is not set in .env file'',
      ProcessExit 1] \<and>
   startup (Some ''your_token_here'') = startup None \<and>
   startup (Some []) = startup None"
  using startup_without_token_exits [of None]
    startup_without_token_exits [of "Some ''your_token_here''"]
    startup_without_token_exits [of "Some []"]
  by simp

subsection \<open>The reset command bypasses the queue (C1)\<close>

text \<open>
  C1: for every inbound text that matches \<^verbatim>\<open>^[!/]reset$\<close> (ignoring case) the handler
  returns having written no file to the incoming directory and having created no pending
  entry, whatever fails; and unless writing the flag file throws, the reset flag holds
  \<^verbatim>\<open>reset\<close> and the reply has been sent to the chat within the same run of the handler.
\<close>

theorem reset_command_bypasses_queue:
  assumes "matches_reset_pattern (msg_text c)"
  shows "\<exists>s'. handle_text env c s = Returned s' \<and>
           incoming s' = incoming s \<and>
           pendingMessages s' = pendingMessages s \<and>
           (\<not> write_flag_fails env \<longrightarrow>
              reset_flag s' = Some ''reset'' \<and>
              calls s' = calls s @
                [Reply (chat_id c)
                   ''Conversation reset! Next message will start a fresh conversation.''])"
proof -
  from assms have "is_reset_command (msg_text c)"
    by (rule reset_pattern_is_reset_command)
  then show ?thesis by (simp add: handle_text_reset)
qed

text \<open>
  Bob sends \<^verbatim>\<open>/Reset\<close> to a freshly started adapter.
\<close>

theorem reset_command_bypasses_queue_witness:
  "matches_reset_pattern (msg_text bob_reset) \<and>
   (\<exists>s'. handle_text (calm 1000 ''k3x9q'') bob_reset fresh = Returned s' \<and>
      incoming s' = [] \<and> pendingMessages s' = [] \<and>
      reset_flag s' = Some ''reset'' \<and>
      calls s' =
        [Reply (- 1001) ''Conversation reset! Next message will start a fresh conversation.''])"
proof -
  have h: "matches_reset_pattern (msg_text bob_reset)"
    by (simp add: bob_reset_def matches_reset_pattern_def reset_pattern_def)
  from reset_command_bypasses_queue [OF h, of "calm 1000 ''k3x9q''" fresh] h
  show ?thesis by (simp add: calm_def fresh_def bob_reset_def)
qed

subsection \<open>The fields of a queued message (C10)\<close>

text \<open>
  C10: every file that a run of the handler writes or changes in the incoming directory
  holds a QueueMessage whose \<^verbatim>\<open>channel\<close> is \<^verbatim>\<open>telegram\<close>, whose \<^verbatim>\<open>senderId\<close> is the
  decimal rendering of the chat id, and whose \<^verbatim>\<open>sender\<close> is not empty: it is the first
  name, else the username, else \<^verbatim>\<open>Unknown\<close>.
\<close>

theorem queue_message_fields:
  assumes "handle_text env c s = Returned s'"
      and "map_of (incoming s') f \<noteq> map_of (incoming s) f"
  shows "\<exists>q n. map_of (incoming s') f = Some (Parses q) \<and>
           property ''channel'' q = Inr (Some (JString ''telegram'')) \<and>
           property ''senderId'' q = Inr (Some (JString (show_int (chat_id c)))) \<and>
           property ''sender'' q = Inr (Some (JString n)) \<and>
           n \<noteq> [] \<and>
           n = (if first_name c \<noteq> [] then first_name c
                else if username c \<noteq> None \<and> username c \<noteq> Some [] then the (username c)
                else ''Unknown'')"
proof (cases "is_reset_command (msg_text c)")
  case True
  with assms(1) have "incoming s' = incoming s"
    by (auto simp: handle_text_reset split: if_splits)
  with assms(2) show ?thesis by simp
next
  case False
  with assms(1) have "incoming s' = incoming s \<or>
    incoming s' = AList.update (queueFile env) (Parses (queueData env c)) (incoming s)"
    by (auto simp: handle_text_message split: if_splits)
  with assms(2) have written:
    "incoming s' = AList.update (queueFile env) (Parses (queueData env c)) (incoming s)"
    by auto
  with assms(2) have "f = queueFile env"
    by (auto simp: update_conv' split: if_splits)
  with written have "map_of (incoming s') f = Some (Parses (queueData env c))"
    by (simp add: update_conv')
  moreover have "sender_of c =
     (if first_name c \<noteq> [] then first_name c
      else if username c \<noteq> None \<and> username c \<noteq> Some [] then the (username c)
      else ''Unknown'')"
    by (auto simp: sender_of_def split: option.split)
  ultimately show ?thesis
    using sender_of_not_empty [of c] by (simp add: queueData_fields)
qed

text \<open>
  Carol has no first name; her message is queued under her username.
\<close>

theorem queue_message_fields_witness:
  "handle_text (calm 1000 ''k3x9q'') carol_hi fresh =
     Returned
      \<lparr>pendingMessages = [(''1000_k3x9q'', \<lparr>chatId = 99, messageId = 3, timestamp = 1000\<rparr>)],
       incoming =
         [(''telegram_1000_k3x9q.json'',
           Parses (JObject [(''channel'', JString ''telegram''),
                            (''sender'', JString ''carol''),
                            (''senderId'', JString ''99''),
                            (''message'', JString ''hi''),
                            (''timestamp'', JNumber 1000),
                            (''messageId'', JString ''1000_k3x9q'')]))],
       outgoing = [], reset_flag = None,
       log_file = [(INFO, MessageFrom ''carol'' ''hi''), (INFO, QueuedMessage ''1000_k3x9q'')],
       calls = [SendChatAction 99], unhandled_rejections = []\<rparr> \<and>
   (\<exists>q n. map_of (incoming (state_of (handle_text (calm 1000 ''k3x9q'') carol_hi fresh)))
            ''telegram_1000_k3x9q.json'' = Some (Parses q) \<and>
      property ''channel'' q = Inr (Some (JString ''telegram'')) \<and>
      property ''senderId'' q = Inr (Some (JString ''99'')) \<and>
      property ''sender'' q = Inr (Some (JString n)) \<and> n = ''carol'')"
proof -
  have run: "handle_text (calm 1000 ''k3x9q'') carol_hi fresh =
     Returned
      \<lparr>pendingMessages = [(''1000_k3x9q'', \<lparr>chatId = 99, messageId = 3, timestamp = 1000\<rparr>)],
       incoming =
         [(''telegram_1000_k3x9q.json'',
           Parses (JObject [(''channel'', JString ''telegram''),
                            (''sender'', JString ''carol''),
                            (''senderId'', JString ''99''),
                            (''message'', JString ''hi''),
                            (''timestamp'', JNumber 1000),
                            (''messageId'', JString ''1000_k3x9q'')]))],
       outgoing = [], reset_flag = None,
       log_file = [(INFO, MessageFrom ''carol'' ''hi''), (INFO, QueuedMessage ''1000_k3x9q'')],
       calls = [SendChatAction 99], unhandled_rejections = []\<rparr>"
    by (simp add: handler_defs calm_def carol_hi_def fresh_def is_reset_command_def
        matches_reset_pattern_def reset_pattern_def trim_def is_white_space_def
        queueFile_def queueData_def internalMessageId_of_def show_int_def show_nat.simps
        digit_char_def sender_of_def cleanup_def)
  have changed: "map_of (incoming (state_of (handle_text (calm 1000 ''k3x9q'') carol_hi fresh)))
            ''telegram_1000_k3x9q.json'' \<noteq> map_of (incoming fresh) ''telegram_1000_k3x9q.json''"
    unfolding run by (simp add: fresh_def)
  have "handle_text (calm 1000 ''k3x9q'') carol_hi fresh =
          Returned (state_of (handle_text (calm 1000 ''k3x9q'') carol_hi fresh))"
    by (simp add: run)
  from queue_message_fields [OF this changed] run
  show ?thesis by (simp add: carol_hi_def show_int_def show_nat.simps digit_char_def)
qed

text \<open>
  The handler is the only callback that writes to the incoming directory.
\<close>

lemma only_the_handler_writes_incoming:
  "incoming (state_of (checkOutgoingQueue env s)) = incoming s"
  "incoming (state_of (typing_refresh typing_fails s)) = incoming s"
proof -
  show "incoming (state_of (checkOutgoingQueue env s)) = incoming s"
    by (cases "readdir_fails env")
       (simp_all add: checkOutgoingQueue_listing_failed checkOutgoingQueue_for_files
          for_files_incoming log_def)
  show "incoming (state_of (typing_refresh typing_fails s)) = incoming s"
    by (simp add: typing_refresh_def typing_loop_result)
qed

subsection \<open>The generated message id (C6)\<close>

text \<open>
  C6 as stated asks for a messageId that is unique per message. The id is built from the
  millisecond clock and the random suffix only: when two messages are handled at the same
  clock reading and draw the same suffix, they get the same id, and the second message
  overwrites the queue file and the pending entry of the first. Here Alice's message is
  lost and the reply to Carol's is all that remains to be routed.
\<close>

theorem same_clock_same_suffix_same_id:
  "handle_text (calm 1000 ''k3x9q'') carol_hi
     (state_of (handle_text (calm 1000 ''k3x9q'') alice_hello fresh)) =
   Returned
     \<lparr>pendingMessages = [(''1000_k3x9q'', \<lparr>chatId = 99, messageId = 3, timestamp = 1000\<rparr>)],
      incoming =
        [(''telegram_1000_k3x9q.json'',
          Parses (JObject [(''channel'', JString ''telegram''),
                           (''sender'', JString ''carol''),
                           (''senderId'', JString ''99''),
                           (''message'', JString ''hi''),
                           (''timestamp'', JNumber 1000),
                           (''messageId'', JString ''1000_k3x9q'')]))],
      outgoing = [], reset_flag = None,
      log_file = [(INFO, MessageFrom ''Alice'' ''hello''), (INFO, QueuedMessage ''1000_k3x9q''),
                  (INFO, MessageFrom ''carol'' ''hi''), (INFO, QueuedMessage ''1000_k3x9q'')],
      calls = [SendChatAction 42, SendChatAction 99], unhandled_rejections = []\<rparr>"
  by (simp add: handler_defs calm_def carol_hi_def alice_hello_def fresh_def is_reset_command_def
      matches_reset_pattern_def reset_pattern_def trim_def is_white_space_def
      queueFile_def queueData_def internalMessageId_of_def show_int_def show_nat.simps
      digit_char_def sender_of_def cleanup_def)

text \<open>
  C6, amended: for every inbound message whose trimmed text is not a reset command, when
  the typing indicator is sent and the queue file is written without failure, the handler
  generates the id \<^verbatim>\<open>`${Date.now()}_${suffix}`\<close>, writes the QueueMessage with that
  \<^verbatim>\<open>messageId\<close> to \<^verbatim>\<open>telegram_{messageId}.json\<close> in the incoming directory, and records
  a pending entry for the chat and the message under the same id (the entry stays unless
  the clock advances by more than ten minutes between lines 119 and 123). Two runs of the
  handler generate the same id exactly when their clock reading and their random suffix
  coincide.
\<close>

theorem message_queued_under_generated_id:
  assumes "\<not> is_reset_command (msg_text c)"
      and "\<not> chat_action_fails env" and "\<not> write_queue_fails env"
      and "now_cleanup env - 10 * 60 * 1000 \<le> now_pending env"
  shows "\<exists>s'. handle_text env c s = Returned s' \<and>
           internalMessageId_of env = show_int (now_id env) @ ''_'' @ random_suffix env \<and>
           map_of (incoming s') (''telegram_'' @ internalMessageId_of env @ ''.json'') =
             Some (Parses (queueData env c)) \<and>
           property ''messageId'' (queueData env c) =
             Inr (Some (JString (internalMessageId_of env))) \<and>
           property ''message'' (queueData env c) = Inr (Some (JString (msg_text c))) \<and>
           map_of (pendingMessages s') (internalMessageId_of env) =
             Some \<lparr>chatId = chat_id c, messageId = message_id c,
                   timestamp = now_pending env\<rparr> \<and>
           (\<forall>env'. internalMessageId_of env' = internalMessageId_of env \<longleftrightarrow>
                    now_id env' = now_id env \<and> random_suffix env' = random_suffix env)"
proof -
  let ?entry = "\<lparr>chatId = chat_id c, messageId = message_id c, timestamp = now_pending env\<rparr>"
  have "map_of (AList.update (internalMessageId_of env) ?entry (pendingMessages s))
          (internalMessageId_of env) = Some ?entry"
    by (simp add: update_conv')
  moreover from assms(4) have "\<not> timestamp ?entry < now_cleanup env - 600000" by simp
  ultimately have kept:
    "map_of (cleanup (now_cleanup env - 600000)
       (AList.update (internalMessageId_of env) ?entry (pendingMessages s)))
       (internalMessageId_of env) = Some ?entry"
    by (rule map_of_cleanup_kept)
  have run: "\<exists>s'. handle_text env c s = Returned s' \<and>
      map_of (incoming s') (''telegram_'' @ internalMessageId_of env @ ''.json'') =
        Some (Parses (queueData env c)) \<and>
      map_of (pendingMessages s') (internalMessageId_of env) = Some ?entry"
    using assms(1-3) kept by (simp add: handle_text_queued update_conv' queueFile_def)
  have shape: "internalMessageId_of env = show_int (now_id env) @ ''_'' @ random_suffix env"
    by (simp add: internalMessageId_of_def)
  have unique: "\<forall>env'. internalMessageId_of env' = internalMessageId_of env \<longleftrightarrow>
                    now_id env' = now_id env \<and> random_suffix env' = random_suffix env"
    by (simp add: internalMessageId_inj)
  from run obtain s' where returned: "handle_text env c s = Returned s'"
    and written: "map_of (incoming s') (''telegram_'' @ internalMessageId_of env @ ''.json'') =
        Some (Parses (queueData env c))"
    and recorded: "map_of (pendingMessages s') (internalMessageId_of env) = Some ?entry"
    by blast
  show ?thesis
  proof (intro exI conjI)
    show "handle_text env c s = Returned s'" by (fact returned)
    show "internalMessageId_of env = show_int (now_id env) @ ''_'' @ random_suffix env"
      by (fact shape)
    show "map_of (incoming s') (''telegram_'' @ internalMessageId_of env @ ''.json'') =
        Some (Parses (queueData env c))" by (fact written)
    show "property ''messageId'' (queueData env c) =
        Inr (Some (JString (internalMessageId_of env)))" by (fact queueData_fields)
    show "property ''message'' (queueData env c) = Inr (Some (JString (msg_text c)))"
      by (fact queueData_fields)
    show "map_of (pendingMessages s') (internalMessageId_of env) = Some ?entry"
      by (fact recorded)
    show "\<forall>env'. internalMessageId_of env' = internalMessageId_of env \<longleftrightarrow>
                    now_id env' = now_id env \<and> random_suffix env' = random_suffix env"
      by (fact unique)
  qed
qed

text \<open>
  Alice's message, handled at clock reading 1000 with the suffix \<^verbatim>\<open>k3x9q\<close>.
\<close>

theorem message_queued_under_generated_id_witness:
  "\<not> is_reset_command (msg_text alice_hello) \<and>
   (\<exists>s'. handle_text (calm 1000 ''k3x9q'') alice_hello fresh = Returned s' \<and>
      internalMessageId_of (calm 1000 ''k3x9q'') = ''1000_k3x9q'' \<and>
      map_of (incoming s') ''telegram_1000_k3x9q.json'' =
        Some (Parses (queueData (calm 1000 ''k3x9q'') alice_hello)) \<and>
      map_of (pendingMessages s') ''1000_k3x9q'' =
        Some \<lparr>chatId = 42, messageId = 7, timestamp = 1000\<rparr>)"
proof -
  have h1: "\<not> is_reset_command (msg_text alice_hello)"
    by (simp add: alice_hello_def is_reset_command_def matches_reset_pattern_def
        reset_pattern_def trim_def is_white_space_def)
  have h2: "\<not> chat_action_fails (calm 1000 ''k3x9q'')"
    and h3: "\<not> write_queue_fails (calm 1000 ''k3x9q'')"
    and h4: "now_cleanup (calm 1000 ''k3x9q'') - 10 * 60 * 1000 \<le> now_pending (calm 1000 ''k3x9q'')"
    by (simp_all add: calm_def)
  have id: "internalMessageId_of (calm 1000 ''k3x9q'') = ''1000_k3x9q''"
    by (simp add: internalMessageId_of_def calm_def show_int_def show_nat.simps digit_char_def)
  from message_queued_under_generated_id [OF h1 h2 h3 h4, of fresh]
  obtain s' where "handle_text (calm 1000 ''k3x9q'') alice_hello fresh = Returned s'"
    and "map_of (incoming s') (''telegram_'' @ internalMessageId_of (calm 1000 ''k3x9q'') @ ''.json'') =
             Some (Parses (queueData (calm 1000 ''k3x9q'') alice_hello))"
    and "map_of (pendingMessages s') (internalMessageId_of (calm 1000 ''k3x9q'')) =
             Some \<lparr>chatId = chat_id alice_hello, messageId = message_id alice_hello,
                   timestamp = now_pending (calm 1000 ''k3x9q'')\<rparr>"
    by blast
  then show ?thesis using h1 id by (simp add: alice_hello_def calm_def)
qed

subsection \<open>Stale pending entries (C2)\<close>

text \<open>
  C2 as stated says that an entry older than ten minutes never routes a reply. The
  clean-up runs only inside the handler; \<^verbatim>\<open>checkOutgoingQueue\<close> never looks at the clock
  or at an entry's timestamp. Alice's message was queued at clock reading 0 and no other
  message arrived; the response appears and the poll runs an hour later (3600000 ms): the
  reply is sent.
\<close>

theorem stale_entry_still_routes_reply:
  "map_of (pendingMessages stale_pending) ''0_k3x9q'' =
     Some \<lparr>chatId = 42, messageId = 7, timestamp = 0\<rparr> \<and>
   timestamp \<lparr>chatId = 42, messageId = 7, timestamp = 0\<rparr> <
     poll_time (quiet_poll 3600000) - 10 * 60 * 1000 \<and>
   checkOutgoingQueue (quiet_poll 3600000) stale_pending =
     Returned
      \<lparr>pendingMessages = [],
       incoming =
         [(''telegram_0_k3x9q.json'',
           Parses (JObject [(''channel'', JString ''telegram''),
                            (''sender'', JString ''Alice''),
                            (''senderId'', JString ''42''),
                            (''message'', JString ''hello''),
                            (''timestamp'', JNumber 0),
                            (''messageId'', JString ''0_k3x9q'')]))],
       outgoing = [], reset_flag = None,
       log_file = [(INFO, MessageFrom ''Alice'' ''hello''), (INFO, QueuedMessage ''0_k3x9q''),
                   (INFO, SentResponseTo (Some (JString ''Alice'')) (Some (JNumber 11)))],
       calls = [SendChatAction 42, SendMessage 42 (Some (JString ''late answer'')) 7],
       unhandled_rejections = []\<rparr>"
  by (simp add: stale_pending_def handler_defs calm_def alice_hello_def fresh_def
      is_reset_command_def matches_reset_pattern_def reset_pattern_def trim_def
      is_white_space_def queueFile_def queueData_def internalMessageId_of_def show_int_def
      show_nat.simps digit_char_def sender_of_def cleanup_def quiet_poll_def
      checkOutgoingQueue_def response_files_def startsWith_def endsWith_def
      process_response_def process_response_body_def read_json_def pending_get_def
      pending_delete_def sendMessage_def unlinkSync_def)

text \<open>
  C2, amended: when the handler queues a message (not a reset command, no failing call),
  every pending entry whose timestamp is more than ten minutes before the clock reading of
  line 123 is dropped from the tracker: the entry's id is no longer pending (the tracker
  holding each key once, and the id differing from the new message's), and no remaining
  entry is older than the bound. From then on, a response file with the dropped id is
  logged with a warning and no platform call is made for it.
\<close>

theorem stale_entry_dropped_by_next_message:
  assumes "\<not> is_reset_command (msg_text c)"
      and "\<not> chat_action_fails env" and "\<not> write_queue_fails env"
      and "distinct (map fst (pendingMessages s))"
      and "map_of (pendingMessages s) k = Some p"
      and "timestamp p < now_cleanup env - 10 * 60 * 1000"
      and "k \<noteq> internalMessageId_of env"
  shows "\<exists>s'. handle_text env c s = Returned s' \<and>
           map_of (pendingMessages s') k = None \<and>
           (\<forall>k' q. map_of (pendingMessages s') k' = Some q \<longrightarrow>
                    \<not> timestamp q < now_cleanup env - 10 * 60 * 1000) \<and>
           (\<forall>s'' penv file r.
              pendingMessages s'' = pendingMessages s' \<and>
              read_json penv file s'' = Inr r \<and>
              property ''messageId'' r = Inr (Some (JString k)) \<longrightarrow>
              calls (state_of (process_response penv file s'')) = calls s'' \<and>
              (WARN, NoPendingMessageFor (Some (JString k)))
                \<in> set (log_file (state_of (process_response penv file s''))))"
proof -
  let ?entry = "\<lparr>chatId = chat_id c, messageId = message_id c, timestamp = now_pending env\<rparr>"
  let ?m = "AList.update (internalMessageId_of env) ?entry (pendingMessages s)"
  let ?s' = "s\<lparr>log_file := log_file s @
            [(INFO, MessageFrom (sender_of c) (take 50 (msg_text c))),
             (INFO, QueuedMessage (internalMessageId_of env))],
          calls := calls s @ [SendChatAction (chat_id c)],
          incoming := AList.update (queueFile env) (Parses (queueData env c)) (incoming s),
          pendingMessages := cleanup (now_cleanup env - 600000) ?m\<rparr>"
  have returned: "handle_text env c s = Returned ?s'"
    using assms(1-3) by (rule handle_text_queued)
  have "distinct (map fst ?m)" using assms(4) by (rule distinct_update)
  moreover have "map_of ?m k = Some p" using assms(5,7) by (simp add: update_conv')
  moreover have "timestamp p < now_cleanup env - 600000" using assms(6) by simp
  ultimately have dropped: "map_of (cleanup (now_cleanup env - 600000) ?m) k = None"
    by (rule map_of_cleanup_dropped)
  have fresh_only: "\<not> timestamp q < now_cleanup env - 10 * 60 * 1000"
    if "map_of (pendingMessages ?s') k' = Some q" for k' q
    using that map_of_cleanup_fresh [of "now_cleanup env - 600000" ?m k' q] by simp
  have discarded:
    "calls (state_of (process_response penv f s'')) = calls s'' \<and>
     (WARN, NoPendingMessageFor (Some (JString k)))
        \<in> set (log_file (state_of (process_response penv f s'')))"
    if "pendingMessages s'' = pendingMessages ?s'" "read_json penv f s'' = Inr r"
       "property ''messageId'' r = Inr (Some (JString k))" for s'' penv f r
  proof -
    from that(1) dropped have "pending_get (Some (JString k)) (pendingMessages s'') = None"
      by (simp add: pending_get_def)
    with that(2,3) show ?thesis by (simp add: process_response_orphan)
  qed
  show ?thesis
  proof (intro exI conjI allI impI)
    show "handle_text env c s = Returned ?s'" by (fact returned)
    show "map_of (pendingMessages ?s') k = None" using dropped by simp
    show "\<not> timestamp q < now_cleanup env - 10 * 60 * 1000"
      if "map_of (pendingMessages ?s') k' = Some q" for k' q
      using that by (rule fresh_only)
    show "calls (state_of (process_response penv f s'')) = calls s''"
      if "pendingMessages s'' = pendingMessages ?s' \<and> read_json penv f s'' = Inr r \<and>
          property ''messageId'' r = Inr (Some (JString k))" for s'' penv f r
      using that discarded by blast
    show "(WARN, NoPendingMessageFor (Some (JString k)))
        \<in> set (log_file (state_of (process_response penv f s'')))"
      if "pendingMessages s'' = pendingMessages ?s' \<and> read_json penv f s'' = Inr r \<and>
          property ''messageId'' r = Inr (Some (JString k))" for s'' penv f r
      using that discarded by blast
  qed
qed

text \<open>
  Alice's entry of clock reading 0 is dropped when Carol's message is handled at 700000;
  the late response to Alice is then discarded.
\<close>

theorem stale_entry_dropped_by_next_message_witness:
  "\<not> is_reset_command (msg_text carol_hi) \<and>
   distinct (map fst (pendingMessages stale_pending)) \<and>
   map_of (pendingMessages stale_pending) ''0_k3x9q'' =
     Some \<lparr>chatId = 42, messageId = 7, timestamp = 0\<rparr> \<and>
   timestamp \<lparr>chatId = 42, messageId = 7, timestamp = 0\<rparr> <
     now_cleanup (calm 700000 ''zz'') - 10 * 60 * 1000 \<and>
   (\<exists>s'. handle_text (calm 700000 ''zz'') carol_hi stale_pending = Returned s' \<and>
      map_of (pendingMessages s') ''0_k3x9q'' = None \<and>
      calls (state_of (process_response (quiet_poll 700001) ''telegram_0_k3x9q.json'' s')) =
        calls s')"
proof -
  let ?p = "\<lparr>chatId = 42, messageId = 7, timestamp = 0\<rparr>"
  let ?r = "JObject [(''channel'', JString ''telegram''),
                           (''sender'', JString ''Alice''),
                           (''message'', JString ''late answer''),
                           (''originalMessage'', JString ''hello''),
                           (''timestamp'', JNumber 3500000),
                           (''messageId'', JString ''0_k3x9q'')]"
  have h1: "\<not> is_reset_command (msg_text carol_hi)" by (fact carol_hi_not_reset)
  have h2: "\<not> chat_action_fails (calm 700000 ''zz'')"
    and h3: "\<not> write_queue_fails (calm 700000 ''zz'')"
    by (simp_all add: calm_def)
  have h4: "distinct (map fst (pendingMessages stale_pending))"
    by (simp add: stale_pending_eval)
  have h5: "map_of (pendingMessages stale_pending) ''0_k3x9q'' = Some ?p"
    by (simp add: stale_pending_eval)
  have h6: "timestamp ?p < now_cleanup (calm 700000 ''zz'') - 10 * 60 * 1000"
    by (simp add: calm_def)
  have h7: "''0_k3x9q'' \<noteq> internalMessageId_of (calm 700000 ''zz'')"
    by (simp add: internalMessageId_of_def calm_def show_int_def show_nat.simps digit_char_def)
  from stale_entry_dropped_by_next_message [OF h1 h2 h3 h4 h5 h6 h7]
  obtain s' where returned: "handle_text (calm 700000 ''zz'') carol_hi stale_pending = Returned s'"
    and gone: "map_of (pendingMessages s') ''0_k3x9q'' = None"
    and discard: "\<And>s'' penv f r.
              pendingMessages s'' = pendingMessages s' \<and>
              read_json penv f s'' = Inr r \<and>
              property ''messageId'' r = Inr (Some (JString ''0_k3x9q'')) \<Longrightarrow>
              calls (state_of (process_response penv f s'')) = calls s''"
    by blast
  from returned have "outgoing s' = outgoing stale_pending"
    by (rule handle_text_outgoing)
  then have "read_json (quiet_poll 700001) ''telegram_0_k3x9q.json'' s' = Inr ?r"
    by (simp add: read_json_Inr quiet_poll_def stale_pending_eval)
  moreover have "property ''messageId'' ?r = Inr (Some (JString ''0_k3x9q''))" by simp
  ultimately have
    "calls (state_of (process_response (quiet_poll 700001) ''telegram_0_k3x9q.json'' s')) = calls s'"
    using discard [of s' "quiet_poll 700001" "''telegram_0_k3x9q.json''" ?r] by simp
  with returned gone h1 h4 h5 h6 show ?thesis by blast
qed

subsection \<open>A response nobody waits for (C4)\<close>

text \<open>
  C4: for every response file that can be read and parsed (to anything but
  \<^verbatim>\<open>null\<close>) and whose \<^verbatim>\<open>messageId\<close> has no pending entry, the iteration of the loop logs a
  warning, makes no platform call, leaves the tracker as it is and deletes the file
  (\<^verbatim>\<open>unlinkSync\<close> not failing). For a listed file this holds of the whole poll too:
  after the poll the file is gone and the warning is in the log, whatever the other files
  are.
\<close>

theorem orphan_response_discarded:
  assumes "read_json env file s = Inr r"
      and "property ''messageId'' r = Inr key"
      and "pending_get key (pendingMessages s) = None"
      and "file \<notin> set (unlink_fails env)"
  shows "(\<exists>s1. process_response env file s = Returned s1 \<and>
            log_file s1 = log_file s @ [(WARN, NoPendingMessageFor key)] \<and>
            calls s1 = calls s \<and>
            pendingMessages s1 = pendingMessages s \<and>
            map_of (outgoing s1) file = None) \<and>
         (\<not> readdir_fails env \<and> startsWith ''telegram_'' file \<and> endsWith ''.json'' file \<longrightarrow>
            (\<exists>s'. checkOutgoingQueue env s = Returned s' \<and>
               map_of (outgoing s') file = None \<and>
               (WARN, NoPendingMessageFor key) \<in> set (log_file s')))"
proof (intro conjI impI)
  show "\<exists>s1. process_response env file s = Returned s1 \<and>
            log_file s1 = log_file s @ [(WARN, NoPendingMessageFor key)] \<and>
            calls s1 = calls s \<and>
            pendingMessages s1 = pendingMessages s \<and>
            map_of (outgoing s1) file = None"
    using assms by (simp add: process_response_orphan delete_conv')
next
  assume listing: "\<not> readdir_fails env \<and> startsWith ''telegram_'' file \<and> endsWith ''.json'' file"
  let ?files = "filter (\<lambda>f. startsWith ''telegram_'' f \<and> endsWith ''.json'' f)
          (map fst (outgoing s))"
  from listing have "file \<in> set ?files" by (intro listed [OF assms(1)]) simp_all
  then have "map_of (outgoing (state_of (for_files env ?files s))) file = None \<and>
         (WARN, NoPendingMessageFor key) \<in> set (log_file (state_of (for_files env ?files s)))"
    using assms by (rule for_files_orphan)
  with listing show "\<exists>s'. checkOutgoingQueue env s = Returned s' \<and>
               map_of (outgoing s') file = None \<and>
               (WARN, NoPendingMessageFor key) \<in> set (log_file s')"
    by (simp add: checkOutgoingQueue_for_files)
qed

text \<open>
  The third file of the example directory.
\<close>

theorem orphan_response_discarded_witness:
  "read_json (quiet_poll 5000) ''telegram_3_orphan.json'' busy =
     Inr (response ''3_orphan'' ''too late'') \<and>
   pending_get (Some (JString ''3_orphan'')) (pendingMessages busy) = None \<and>
   (\<exists>s1. process_response (quiet_poll 5000) ''telegram_3_orphan.json'' busy = Returned s1 \<and>
      log_file s1 = [(WARN, NoPendingMessageFor (Some (JString ''3_orphan'')))] \<and>
      calls s1 = [] \<and>
      map_of (outgoing s1) ''telegram_3_orphan.json'' = None) \<and>
   (\<exists>s'. checkOutgoingQueue (quiet_poll 5000) busy = Returned s' \<and>
      map_of (outgoing s') ''telegram_3_orphan.json'' = None \<and>
      (WARN, NoPendingMessageFor (Some (JString ''3_orphan''))) \<in> set (log_file s'))"
proof -
  have h4: "''telegram_3_orphan.json'' \<notin> set (unlink_fails (quiet_poll 5000))"
    by (simp add: busy_facts)
  have name: "startsWith ''telegram_'' ''telegram_3_orphan.json''"
    "endsWith ''.json'' ''telegram_3_orphan.json''"
    by (simp_all add: startsWith_def endsWith_def)
  have start: "log_file busy = []" "calls busy = []" by (simp_all add: busy_def)
  from orphan_response_discarded [OF busy_facts(1) busy_facts(3) busy_facts(5) h4]
    busy_facts(7) name
  show ?thesis by (simp add: busy_facts(1,5) start) blast
qed

subsection \<open>A response to a pending message (C5)\<close>

text \<open>
  C5: for every response file that can be read and parsed, whose \<^verbatim>\<open>messageId\<close> is
  pending and whose \<^verbatim>\<open>message\<close> is a string, the iteration of the loop sends the text to
  the entry's chat as a reply to the entry's message, removes the entry and deletes the
  file (\<^verbatim>\<open>unlinkSync\<close> not failing). For a listed file this holds of the whole poll too,
  when no other listed file carries the same \<^verbatim>\<open>messageId\<close>.
\<close>

theorem matched_response_delivered:
  assumes "read_json env file s = Inr r"
      and "property ''messageId'' r = Inr (Some (JString k))"
      and "property ''message'' r = Inr (Some (JString responseText))"
      and "map_of (pendingMessages s) k = Some p"
      and "file \<notin> set (unlink_fails env)"
  shows "(\<exists>s1. process_response env file s = Returned s1 \<and>
            calls s1 = calls s @
              [SendMessage (chatId p) (Some (JString responseText)) (messageId p)] \<and>
            map_of (pendingMessages s1) k = None \<and>
            map_of (outgoing s1) file = None) \<and>
         (\<not> readdir_fails env \<and> startsWith ''telegram_'' file \<and> endsWith ''.json'' file \<and>
          (\<forall>g r'. g \<noteq> file \<and> startsWith ''telegram_'' g \<and> endsWith ''.json'' g \<and>
                   read_json env g s = Inr r' \<longrightarrow>
                   property ''messageId'' r' \<noteq> Inr (Some (JString k))) \<longrightarrow>
            (\<exists>s'. checkOutgoingQueue env s = Returned s' \<and>
               SendMessage (chatId p) (Some (JString responseText)) (messageId p)
                 \<in> set (calls s') \<and>
               map_of (pendingMessages s') k = None \<and>
               map_of (outgoing s') file = None))"
proof (intro conjI impI)
  from assms(2) obtain sender where sender: "property ''sender'' r = Inr sender"
    using property_defined by blast
  show "\<exists>s1. process_response env file s = Returned s1 \<and>
            calls s1 = calls s @
              [SendMessage (chatId p) (Some (JString responseText)) (messageId p)] \<and>
            map_of (pendingMessages s1) k = None \<and>
            map_of (outgoing s1) file = None"
    using process_response_matched [OF assms(1,2,3) sender assms(4)] assms(5)
    by (simp add: sendMessage_fields delete_conv')
next
  assume listing: "\<not> readdir_fails env \<and> startsWith ''telegram_'' file \<and>
      endsWith ''.json'' file \<and>
      (\<forall>g r'. g \<noteq> file \<and> startsWith ''telegram_'' g \<and> endsWith ''.json'' g \<and>
               read_json env g s = Inr r' \<longrightarrow>
               property ''messageId'' r' \<noteq> Inr (Some (JString k)))"
  let ?files = "filter (\<lambda>f. startsWith ''telegram_'' f \<and> endsWith ''.json'' f)
          (map fst (outgoing s))"
  from listing have "file \<in> set ?files" by (intro listed [OF assms(1)]) simp_all
  moreover from listing have "\<And>g r'. g \<in> set ?files \<Longrightarrow> g \<noteq> file \<Longrightarrow>
             read_json env g s = Inr r' \<Longrightarrow>
             property ''messageId'' r' \<noteq> Inr (Some (JString k))"
    by auto
  ultimately have
    "SendMessage (chatId p) (Some (JString responseText)) (messageId p)
           \<in> set (calls (state_of (for_files env ?files s))) \<and>
         map_of (pendingMessages (state_of (for_files env ?files s))) k = None \<and>
         map_of (outgoing (state_of (for_files env ?files s))) file = None"
    using assms by (intro for_files_matched)
  with listing show "\<exists>s'. checkOutgoingQueue env s = Returned s' \<and>
               SendMessage (chatId p) (Some (JString responseText)) (messageId p)
                 \<in> set (calls s') \<and>
               map_of (pendingMessages s') k = None \<and>
               map_of (outgoing s') file = None"
    by (simp add: checkOutgoingQueue_for_files)
qed

text \<open>
  The last file of the example directory; the Discord file with the same id is not
  listed.
\<close>

theorem matched_response_delivered_witness:
  "read_json (quiet_poll 5000) ''telegram_1000_k3x9q.json'' busy =
     Inr (response ''1000_k3x9q'' ''hi Alice'') \<and>
   map_of (pendingMessages busy) ''1000_k3x9q'' =
     Some \<lparr>chatId = 42, messageId = 7, timestamp = 1000\<rparr> \<and>
   (\<exists>s1. process_response (quiet_poll 5000) ''telegram_1000_k3x9q.json'' busy = Returned s1 \<and>
      calls s1 = [SendMessage 42 (Some (JString ''hi Alice'')) 7] \<and>
      map_of (pendingMessages s1) ''1000_k3x9q'' = None \<and>
      map_of (outgoing s1) ''telegram_1000_k3x9q.json'' = None) \<and>
   (\<exists>s'. checkOutgoingQueue (quiet_poll 5000) busy = Returned s' \<and>
      SendMessage 42 (Some (JString ''hi Alice'')) 7 \<in> set (calls s') \<and>
      map_of (pendingMessages s') ''1000_k3x9q'' = None \<and>
      map_of (outgoing s') ''telegram_1000_k3x9q.json'' = None)"
proof -
  have h5: "''telegram_1000_k3x9q.json'' \<notin> set (unlink_fails (quiet_poll 5000))"
    by (simp add: busy_facts)
  have name: "startsWith ''telegram_'' ''telegram_1000_k3x9q.json''"
    "endsWith ''.json'' ''telegram_1000_k3x9q.json''"
    by (simp_all add: startsWith_def endsWith_def)
  have only: "\<forall>g r'. g \<noteq> ''telegram_1000_k3x9q.json'' \<and> startsWith ''telegram_'' g \<and>
      endsWith ''.json'' g \<and> read_json (quiet_poll 5000) g busy = Inr r' \<longrightarrow>
      property ''messageId'' r' \<noteq> Inr (Some (JString ''1000_k3x9q''))"
    by (auto simp: read_json_Inr busy_def response_def startsWith_def split: if_splits)
  have start: "calls busy = []" by (simp add: busy_def)
  from matched_response_delivered
    [OF busy_facts(2) busy_facts(3) busy_facts(4) busy_facts(6) h5]
    busy_facts(7) name only
  show ?thesis by (simp add: busy_facts(2,6) start)
qed

text \<open>
  From the handler to the poll: the entry holds the chat and the message id of the inbound
  message, so the reply to a queued message quotes that message.
\<close>

lemma reply_addresses_original_message:
  assumes "\<not> is_reset_command (msg_text c)"
      and "\<not> chat_action_fails env" and "\<not> write_queue_fails env"
      and "now_cleanup env - 10 * 60 * 1000 \<le> now_pending env"
      and "handle_text env c s = Returned s'"
      and "read_json penv f s' = Inr r"
      and "property ''messageId'' r = Inr (Some (JString (internalMessageId_of env)))"
      and "property ''message'' r = Inr (Some (JString answer))"
  shows "calls (state_of (process_response penv f s')) =
           calls s' @ [SendMessage (chat_id c) (Some (JString answer)) (message_id c)]"
proof -
  let ?entry = "\<lparr>chatId = chat_id c, messageId = message_id c, timestamp = now_pending env\<rparr>"
  have "map_of (AList.update (internalMessageId_of env) ?entry (pendingMessages s))
          (internalMessageId_of env) = Some ?entry"
    by (simp add: update_conv')
  moreover from assms(4) have "\<not> timestamp ?entry < now_cleanup env - 600000" by simp
  ultimately have
    "map_of (cleanup (now_cleanup env - 600000)
       (AList.update (internalMessageId_of env) ?entry (pendingMessages s)))
       (internalMessageId_of env) = Some ?entry"
    by (rule map_of_cleanup_kept)
  with assms(1,2,3,5) have pending: "map_of (pendingMessages s') (internalMessageId_of env) = Some ?entry"
    by (auto simp: handle_text_queued)
  from assms(7) obtain sender where sender: "property ''sender'' r = Inr sender"
    using property_defined by blast
  show ?thesis
    using process_response_matched [OF assms(6) assms(7) assms(8) sender pending]
    by (simp add: sendMessage_fields)
qed

subsection \<open>A malformed response file (C3)\<close>

text \<open>
  C3 says that a malformed file is logged and deleted. The code logs it and keeps it:
  the \<^verbatim>\<open>catch\<close> of lines 166-168 does not unlink the file, so every poll finds it
  again. For every state and environment, an unparseable file is still in the directory
  after its iteration and after the whole poll, and its iteration (the file being
  readable) only adds an error line to the log.
\<close>

theorem unparseable_response_is_logged_but_kept:
  assumes "map_of (outgoing s) file = Some Unparseable"
  shows "(file \<notin> set (read_fails env) \<longrightarrow>
            process_response env file s =
              Returned (log ERROR (ErrorProcessingResponseFile file JsonSyntaxError) s)) \<and>
         map_of (outgoing (state_of (process_response env file s))) file = Some Unparseable \<and>
         map_of (outgoing (state_of (checkOutgoingQueue env s))) file = Some Unparseable"
proof (intro conjI impI)
  assume "file \<notin> set (read_fails env)"
  with assms have "read_json env file s = Inl JsonSyntaxError" by (simp add: read_json_def)
  then show "process_response env file s =
      Returned (log ERROR (ErrorProcessingResponseFile file JsonSyntaxError) s)"
    by (rule process_response_failed_read)
next
  have "for_files env [file] s = process_response env file s"
    using process_response_returns [of env "file" s] by auto
  with for_files_unparseable [OF assms, of env "[file]"]
  show "map_of (outgoing (state_of (process_response env file s))) file = Some Unparseable"
    by simp
next
  show "map_of (outgoing (state_of (checkOutgoingQueue env s))) file = Some Unparseable"
  proof (cases "readdir_fails env")
    case True
    with assms show ?thesis by (simp add: checkOutgoingQueue_listing_failed log_def)
  next
    case False
    with assms show ?thesis
      by (simp add: checkOutgoingQueue_for_files for_files_unparseable)
  qed
qed

text \<open>
  Two polls over a directory that holds one file that is not JSON.
\<close>

theorem unparseable_response_is_logged_but_kept_witness:
  "map_of (outgoing poisoned) ''telegram_1_bad.json'' = Some Unparseable \<and>
   checkOutgoingQueue (quiet_poll 1000) poisoned =
     Returned
       \<lparr>pendingMessages = [], incoming = [],
        outgoing = [(''telegram_1_bad.json'', Unparseable)], reset_flag = None,
        log_file = [(ERROR, ErrorProcessingResponseFile ''telegram_1_bad.json'' JsonSyntaxError)],
        calls = [], unhandled_rejections = []\<rparr> \<and>
   map_of (outgoing (state_of (checkOutgoingQueue (quiet_poll 1000) poisoned)))
     ''telegram_1_bad.json'' = Some Unparseable \<and>
   checkOutgoingQueue (quiet_poll 2000) (state_of (checkOutgoingQueue (quiet_poll 1000) poisoned)) =
     Returned
       \<lparr>pendingMessages = [], incoming = [],
        outgoing = [(''telegram_1_bad.json'', Unparseable)], reset_flag = None,
        log_file = [(ERROR, ErrorProcessingResponseFile ''telegram_1_bad.json'' JsonSyntaxError),
                    (ERROR, ErrorProcessingResponseFile ''telegram_1_bad.json'' JsonSyntaxError)],
        calls = [], unhandled_rejections = []\<rparr>"
proof -
  have h: "map_of (outgoing poisoned) ''telegram_1_bad.json'' = Some Unparseable"
    by (simp add: poisoned_def fresh_def)
  have first: "checkOutgoingQueue (quiet_poll 1000) poisoned =
     Returned
       \<lparr>pendingMessages = [], incoming = [],
        outgoing = [(''telegram_1_bad.json'', Unparseable)], reset_flag = None,
        log_file = [(ERROR, ErrorProcessingResponseFile ''telegram_1_bad.json'' JsonSyntaxError)],
        calls = [], unhandled_rejections = []\<rparr>"
    by (simp add: poll_defs poisoned_def fresh_def quiet_poll_def)
  have second: "checkOutgoingQueue (quiet_poll 2000)
       \<lparr>pendingMessages = [], incoming = [],
        outgoing = [(''telegram_1_bad.json'', Unparseable)], reset_flag = None,
        log_file = [(ERROR, ErrorProcessingResponseFile ''telegram_1_bad.json'' JsonSyntaxError)],
        calls = [], unhandled_rejections = []\<rparr> =
     Returned
       \<lparr>pendingMessages = [], incoming = [],
        outgoing = [(''telegram_1_bad.json'', Unparseable)], reset_flag = None,
        log_file = [(ERROR, ErrorProcessingResponseFile ''telegram_1_bad.json'' JsonSyntaxError),
                    (ERROR, ErrorProcessingResponseFile ''telegram_1_bad.json'' JsonSyntaxError)],
        calls = [], unhandled_rejections = []\<rparr>"
    by (simp add: poll_defs quiet_poll_def)
  from unparseable_response_is_logged_but_kept [OF h, of "quiet_poll 1000"]
  have "map_of (outgoing (state_of (checkOutgoingQueue (quiet_poll 1000) poisoned)))
     ''telegram_1_bad.json'' = Some Unparseable"
    by blast
  with h first second show ?thesis by simp
qed

text \<open>
  A response whose \<^verbatim>\<open>messageId\<close> is pending but which has no \<^verbatim>\<open>message\<close>:
  \<^verbatim>\<open>sendMessage\<close> is called with \<^verbatim>\<open>undefined\<close>, \<^verbatim>\<open>responseText.length\<close> throws, and
  neither the entry nor the file is removed, so every poll sends again.
\<close>

lemma response_without_text_is_sent_on_every_poll:
  "checkOutgoingQueue (quiet_poll 2000) textless =
     Returned (textless
       \<lparr>log_file := [(ERROR, ErrorProcessingResponseFile ''telegram_1000_k3x9q.json'' TypeError)],
        calls := [SendMessage 42 None 7]\<rparr>)"
  "checkOutgoingQueue (quiet_poll 3000) (state_of (checkOutgoingQueue (quiet_poll 2000) textless)) =
     Returned (textless
       \<lparr>log_file := [(ERROR, ErrorProcessingResponseFile ''telegram_1000_k3x9q.json'' TypeError),
                     (ERROR, ErrorProcessingResponseFile ''telegram_1000_k3x9q.json'' TypeError)],
        calls := [SendMessage 42 None 7, SendMessage 42 None 7]\<rparr>)"
  by (simp_all add: poll_defs textless_def quiet_poll_def)

subsection \<open>Error boundaries of the poll (C9)\<close>

text \<open>
  C9: every iteration of the loop returns, whatever fails in it (reading, parsing,
  sending, deleting), and so does the poll; when listing the directory fails the poll
  logs the failure and returns; otherwise the poll is the iteration applied to every
  listed file in turn, each starting from the state its predecessor left.
\<close>

theorem poll_cycle_error_boundaries:
  "(\<exists>s1. process_response env file s = Returned s1) \<and>
   (\<exists>s'. checkOutgoingQueue env s = Returned s') \<and>
   (readdir_fails env \<longrightarrow>
      checkOutgoingQueue env s = Returned (log ERROR (OutgoingQueueError FsReaddirError) s)) \<and>
   (\<not> readdir_fails env \<longrightarrow>
      checkOutgoingQueue env s =
        Returned (foldl (\<lambda>s file. state_of (process_response env file s)) s
          (filter (\<lambda>f. startsWith ''telegram_'' f \<and> endsWith ''.json'' f)
             (map fst (outgoing s)))))"
proof (intro conjI impI)
  show "\<exists>s1. process_response env file s = Returned s1" by (rule process_response_returns)
  show "\<exists>s'. checkOutgoingQueue env s = Returned s'"
    by (cases "readdir_fails env")
       (simp_all add: checkOutgoingQueue_listing_failed checkOutgoingQueue_for_files)
  show "checkOutgoingQueue env s = Returned (log ERROR (OutgoingQueueError FsReaddirError) s)"
    if "readdir_fails env" using that by (rule checkOutgoingQueue_listing_failed)
  show "checkOutgoingQueue env s =
        Returned (foldl (\<lambda>s file. state_of (process_response env file s)) s
          (filter (\<lambda>f. startsWith ''telegram_'' f \<and> endsWith ''.json'' f)
             (map fst (outgoing s))))"
    if "\<not> readdir_fails env"
    using that by (simp add: checkOutgoingQueue_fold response_files_def)
qed

text \<open>
  A poll over the example directory: the first file is not JSON, the second cannot be
  read; the third and the fourth listed file are handled all the same.
\<close>

theorem poll_cycle_error_boundaries_witness:
  "\<not> readdir_fails (failing_poll 5000 [''telegram_2_locked.json''] [] []) \<and>
   foldl (\<lambda>s file. state_of
            (process_response (failing_poll 5000 [''telegram_2_locked.json''] [] []) file s))
     busy
     [''telegram_1_bad.json'', ''telegram_2_locked.json'', ''telegram_3_orphan.json'',
      ''telegram_1000_k3x9q.json''] =
     \<lparr>pendingMessages = [], incoming = [],
       outgoing =
         [(''telegram_1_bad.json'', Unparseable),
          (''telegram_2_locked.json'', Parses (response ''2_locked'' ''never read'')),
          (''discord_4_other.json'', Parses (response ''1000_k3x9q'' ''not ours''))],
       reset_flag = None,
       log_file =
         [(ERROR, ErrorProcessingResponseFile ''telegram_1_bad.json'' JsonSyntaxError),
          (ERROR, ErrorProcessingResponseFile ''telegram_2_locked.json'' FsReadError),
          (WARN, NoPendingMessageFor (Some (JString ''3_orphan''))),
          (INFO, SentResponseTo (Some (JString ''Alice'')) (Some (JNumber 8)))],
       calls = [SendMessage 42 (Some (JString ''hi Alice'')) 7],
       unhandled_rejections = []\<rparr>"
proof -
  let ?env = "failing_poll 5000 [''telegram_2_locked.json''] [] []"
  have h: "\<not> readdir_fails ?env" by (simp add: failing_poll_def)
  have files: "filter (\<lambda>f. startsWith ''telegram_'' f \<and> endsWith ''.json'' f)
      (map fst (outgoing busy)) =
     [''telegram_1_bad.json'', ''telegram_2_locked.json'', ''telegram_3_orphan.json'',
      ''telegram_1000_k3x9q.json'']"
    by (simp add: busy_def startsWith_def endsWith_def)
  from poll_cycle_error_boundaries [of ?env "''telegram_1_bad.json''" busy] h
  have "checkOutgoingQueue ?env busy =
        Returned (foldl (\<lambda>s file. state_of (process_response ?env file s)) busy
          (filter (\<lambda>f. startsWith ''telegram_'' f \<and> endsWith ''.json'' f)
             (map fst (outgoing busy))))"
    by blast
  with h show ?thesis by (simp only: files busy_poll outcome.inject simp_thms)
qed

subsection \<open>Failing platform calls (C7)\<close>

text \<open>
  C7 as stated says that every failed platform call is logged. The typing refresh ignores
  a rejected \<^verbatim>\<open>sendChatAction\<close> without logging it: the chat of the pending entry cannot
  be reached, and the log stays empty.
\<close>

theorem failed_typing_refresh_is_not_logged:
  "settled (42 \<in> set [42]) = Rejected TelegramError \<and>
   typing_refresh [42] alice_waiting =
     Returned
       \<lparr>pendingMessages = [(''1000_k3x9q'', \<lparr>chatId = 42, messageId = 7, timestamp = 1000\<rparr>)],
        incoming = [], outgoing = [], reset_flag = None, log_file = [],
        calls = [SendChatAction 42], unhandled_rejections = []\<rparr>"
  by (simp add: typing_refresh_def alice_waiting_def settled_def catch_ignore_def issue_def)

text \<open>
  C7, amended: the handler returns whatever fails; a rejected reply to a reset command
  and a rejected typing indicator for any other message are logged as errors (and the
  message is then not queued). The typing refresh returns whatever fails, having sent one
  typing indicator per pending entry; it logs nothing, changes no entry and leaves no
  rejection unhandled.
\<close>

theorem platform_errors_in_handler_and_refresh:
  "(\<exists>s'. handle_text env c s = Returned s' \<and>
      (is_reset_command (msg_text c) \<and> \<not> write_flag_fails env \<and> reply_fails env \<longrightarrow>
         log_file s' = log_file s @
           [(INFO, MessageFrom (sender_of c) (take 50 (msg_text c))),
            (INFO, ResetCommandReceived),
            (ERROR, MessageHandlingError TelegramError)]) \<and>
      (\<not> is_reset_command (msg_text c) \<and> chat_action_fails env \<longrightarrow>
         log_file s' = log_file s @
           [(INFO, MessageFrom (sender_of c) (take 50 (msg_text c))),
            (ERROR, MessageHandlingError TelegramError)] \<and>
         incoming s' = incoming s \<and> pendingMessages s' = pendingMessages s)) \<and>
   (\<exists>t'. typing_refresh typing_fails t = Returned t' \<and>
      log_file t' = log_file t \<and>
      unhandled_rejections t' = unhandled_rejections t \<and>
      pendingMessages t' = pendingMessages t \<and>
      calls t' = calls t @ map (\<lambda>(k, data). SendChatAction (chatId data)) (pendingMessages t))"
proof (intro conjI)
  show "\<exists>s'. handle_text env c s = Returned s' \<and>
      (is_reset_command (msg_text c) \<and> \<not> write_flag_fails env \<and> reply_fails env \<longrightarrow>
         log_file s' = log_file s @
           [(INFO, MessageFrom (sender_of c) (take 50 (msg_text c))),
            (INFO, ResetCommandReceived),
            (ERROR, MessageHandlingError TelegramError)]) \<and>
      (\<not> is_reset_command (msg_text c) \<and> chat_action_fails env \<longrightarrow>
         log_file s' = log_file s @
           [(INFO, MessageFrom (sender_of c) (take 50 (msg_text c))),
            (ERROR, MessageHandlingError TelegramError)] \<and>
         incoming s' = incoming s \<and> pendingMessages s' = pendingMessages s)"
    by (cases "is_reset_command (msg_text c)")
       (simp_all add: handle_text_reset handle_text_message)
  show "\<exists>t'. typing_refresh typing_fails t = Returned t' \<and>
      log_file t' = log_file t \<and>
      unhandled_rejections t' = unhandled_rejections t \<and>
      pendingMessages t' = pendingMessages t \<and>
      calls t' = calls t @ map (\<lambda>(k, data). SendChatAction (chatId data)) (pendingMessages t)"
    by (simp add: typing_refresh_def typing_loop_result)
qed

text \<open>
  The platform rejects every call: Bob's reset, Alice's message, and a typing refresh
  while Alice's message is pending.
\<close>

theorem platform_errors_in_handler_and_refresh_witness:
  "is_reset_command (msg_text bob_reset) \<and> reply_fails (unreachable 1000 ''k3x9q'') \<and>
   \<not> is_reset_command (msg_text alice_hello) \<and> chat_action_fails (unreachable 1000 ''k3x9q'') \<and>
   (\<exists>s'. handle_text (unreachable 1000 ''k3x9q'') bob_reset fresh = Returned s' \<and>
      log_file s' =
        [(INFO, MessageFrom ''Unknown'' ''/Reset''), (INFO, ResetCommandReceived),
         (ERROR, MessageHandlingError TelegramError)]) \<and>
   (\<exists>s'. handle_text (unreachable 1000 ''k3x9q'') alice_hello fresh = Returned s' \<and>
      log_file s' =
        [(INFO, MessageFrom ''Alice'' ''hello''), (ERROR, MessageHandlingError TelegramError)] \<and>
      incoming s' = [] \<and> pendingMessages s' = []) \<and>
   (\<exists>s'. typing_refresh [42] alice_waiting = Returned s' \<and>
      log_file s' = [] \<and> calls s' = [SendChatAction 42])"
proof -
  let ?env = "unreachable 1000 ''k3x9q''"
  have bob: "is_reset_command (msg_text bob_reset)"
    by (simp add: bob_reset_def is_reset_command_def matches_reset_pattern_def
        reset_pattern_def trim_def is_white_space_def)
  have alice: "\<not> is_reset_command (msg_text alice_hello)"
    by (simp add: alice_hello_def is_reset_command_def matches_reset_pattern_def
        reset_pattern_def trim_def is_white_space_def)
  have env: "\<not> write_flag_fails ?env" "reply_fails ?env" "chat_action_fails ?env"
    by (simp_all add: unreachable_def calm_def)
  have names: "sender_of bob_reset = ''Unknown''" "take 50 (msg_text bob_reset) = ''/Reset''"
    "sender_of alice_hello = ''Alice''" "take 50 (msg_text alice_hello) = ''hello''"
    by (simp_all add: sender_of_def bob_reset_def alice_hello_def)
  have start: "log_file fresh = []" "incoming fresh = []" "pendingMessages fresh = []"
    "log_file alice_waiting = []" "calls alice_waiting = []"
    "pendingMessages alice_waiting =
       [(''1000_k3x9q'', \<lparr>chatId = 42, messageId = 7, timestamp = 1000\<rparr>)]"
    by (simp_all add: fresh_def alice_waiting_def)
  from platform_errors_in_handler_and_refresh [of ?env bob_reset fresh "[42]" alice_waiting]
    platform_errors_in_handler_and_refresh [of ?env alice_hello fresh "[42]" alice_waiting]
    bob alice env
  show ?thesis by (simp add: names start) blast
qed

text \<open>
  The reply of the outgoing poll is neither awaited nor caught: when its promise is
  rejected, the poll has already logged the response as sent, and the rejection is
  unhandled.
\<close>

lemma failed_send_is_logged_as_sent:
  "checkOutgoingQueue (failing_poll 5000 [] [] [42])
     (alice_waiting\<lparr>outgoing :=
        [(''telegram_1000_k3x9q.json'', Parses (response ''1000_k3x9q'' ''hi Alice''))]\<rparr>) =
   Returned
     \<lparr>pendingMessages = [], incoming = [], outgoing = [], reset_flag = None,
      log_file = [(INFO, SentResponseTo (Some (JString ''Alice'')) (Some (JNumber 8)))],
      calls = [SendMessage 42 (Some (JString ''hi Alice'')) 7],
      unhandled_rejections = [TelegramError]\<rparr>"
  by (simp add: poll_defs alice_waiting_def failing_poll_def response_def)

end
